theory Spec2Isabelle
  imports Complex_Main "HOL-Library.Char_ord" "HOL-Library.List_Lexorder"
begin

section \<open>The notebook optimize\_image\_sampling.ipynb\<close>

text \<open>
  The repository is one Jupyter notebook. Its code cells are embedded here one by one:
  the move of the downloaded files, the header summary table, the pixel phase of the
  dither pattern, the alignment table, \<open>get_vals_from_mdriztab\<close>, the sweep over
  \<open>final_pixfrac\<close> and the evaluation of the weight images.

  Numbers. Python floats (binary64) are modelled as rationals and their arithmetic as
  exact arithmetic, except where the notebook narrows a value on purpose: the arrays of
  the dither cell have \<open>dtype=np.float16\<close>, and that rounding is modelled bit for bit
  (section on the pixel phase). Calls into astropy, numpy, glob, os, shutil and drizzlepac
  are calls into libraries outside the repository; each is given the behaviour its
  documentation states, in a definition of its own that says so.
\<close>

subsection \<open>Values and errors\<close>

text \<open>
  The value of a header card as astropy returns it: a string, or a number (an int, a
  float or a bool of Python, by its value).
\<close>

datatype hval = HStr string | HNum rat

datatype py_error =
    KeyError hval
  | IndexError
  | TypeError
  | ValueError
  | FileNotFoundError string
  | OSError string

definition ebind :: "'e + 'a \<Rightarrow> ('a \<Rightarrow> 'e + 'b) \<Rightarrow> 'e + 'b" where
  "ebind m f = (case m of Inl e \<Rightarrow> Inl e | Inr x \<Rightarrow> f x)"

fun emap :: "('a \<Rightarrow> 'e + 'b) \<Rightarrow> 'a list \<Rightarrow> 'e + 'b list" where
  "emap f [] = Inr []"
| "emap f (x # xs) = ebind (f x) (\<lambda>y. ebind (emap f xs) (\<lambda>ys. Inr (y # ys)))"

subsection \<open>Strings: decimal formatting\<close>

definition digit_char :: "nat \<Rightarrow> char" where
  "digit_char d = char_of (48 + d)"

fun show_nat :: "nat \<Rightarrow> string" where
  "show_nat n = (if n < 10 then [digit_char n] else show_nat (n div 10) @ [digit_char (n mod 10)])"

text \<open>Rounding to the nearest integer, ties to the even one (Python's and numpy's rule).\<close>

definition round_half_even :: "rat \<Rightarrow> int" where
  "round_half_even x =
     (let f = \<lfloor>x\<rfloor>; d = x - of_int f
      in if d < 1 / 2 then f
         else if 1 / 2 < d then f + 1
         else if even f then f else f + 1)"

text \<open>\<^verbatim>\<open>'{:.1f}'.format(x)\<close>: one digit after the point.\<close>

definition format_1f :: "rat \<Rightarrow> string" where
  "format_1f x =
     (let t = nat (round_half_even (\<bar>x\<bar> * 10));
          s = show_nat (t div 10) @ ''.'' @ [digit_char (t mod 10)]
      in if x < 0 then ''-'' @ s else s)"

subsection \<open>File name patterns (Python's fnmatch and glob)\<close>

datatype pat =
    PStar
  | PAny
  | PSet bool "(char \<times> char) list"
  | PLit char

text \<open>
  The end of a bracket expression, as \<open>fnmatch.translate\<close> looks for it: an optional
  \<open>!\<close>, then an optional \<open>]\<close> that stands for itself, then the first \<open>]\<close>.
\<close>

fun find_close :: "string \<Rightarrow> nat \<Rightarrow> nat option" where
  "find_close [] j = None"
| "find_close (c # cs) j = (if c = CHR '']'' then Some j else find_close cs (Suc j))"

definition class_end :: "string \<Rightarrow> nat option" where
  "class_end cs =
     (let j0 = (if cs \<noteq> [] \<and> hd cs = CHR ''!'' then 1 else 0);
          j1 = (if j0 < length cs \<and> cs ! j0 = CHR '']'' then Suc j0 else j0)
      in find_close (drop j1 cs) j1)"

fun class_items :: "string \<Rightarrow> (char \<times> char) list" where
  "class_items (a # m # b # rest) =
     (if m = CHR ''-'' then (a, b) # class_items rest else (a, a) # class_items (m # b # rest))"
| "class_items (a # rest) = (a, a) # class_items rest"
| "class_items [] = []"

definition class_of :: "string \<Rightarrow> pat" where
  "class_of body =
     (if body \<noteq> [] \<and> hd body = CHR ''!'' then PSet True (class_items (tl body))
      else PSet False (class_items body))"

function parse_pat :: "string \<Rightarrow> pat list" where
  "parse_pat [] = []"
| "parse_pat (c # cs) =
     (if c = CHR ''*'' then PStar # parse_pat cs
      else if c = CHR ''?'' then PAny # parse_pat cs
      else if c = CHR ''['' then
        (case class_end cs of
           None \<Rightarrow> PLit c # parse_pat cs
         | Some j \<Rightarrow> class_of (take j cs) # parse_pat (drop (Suc j) cs))
      else PLit c # parse_pat cs)"
  by pat_completeness auto
termination
  by (relation "measure length") auto

definition in_ranges :: "char \<Rightarrow> (char \<times> char) list \<Rightarrow> bool" where
  "in_ranges c rs = list_ex (\<lambda>(lo, hi). lo \<le> c \<and> c \<le> hi) rs"

fun pmatch :: "pat list \<Rightarrow> string \<Rightarrow> bool" where
  "pmatch [] s = (s = [])"
| "pmatch (PStar # ps) [] = pmatch ps []"
| "pmatch (PStar # ps) (c # s) = (pmatch ps (c # s) \<or> pmatch (PStar # ps) s)"
| "pmatch (PAny # ps) [] = False"
| "pmatch (PAny # ps) (c # s) = pmatch ps s"
| "pmatch (PSet neg rs # ps) [] = False"
| "pmatch (PSet neg rs # ps) (c # s) = ((in_ranges c rs \<noteq> neg) \<and> pmatch ps s)"
| "pmatch (PLit a # ps) [] = False"
| "pmatch (PLit a # ps) (c # s) = (a = c \<and> pmatch ps s)"

definition fnmatch :: "string \<Rightarrow> string \<Rightarrow> bool" where
  "fnmatch name pattern = pmatch (parse_pat pattern) name"

definition ishidden :: "string \<Rightarrow> bool" where
  "ishidden p = (p \<noteq> [] \<and> hd p = CHR ''.'')"

text \<open>
  \<open>glob.glob(pattern)\<close> for a pattern without a directory part, over the names of the
  working directory in the order the operating system lists them: names that start with
  a dot are left out unless the pattern starts with one.
\<close>

definition glob1 :: "string \<Rightarrow> string list \<Rightarrow> string list" where
  "glob1 pattern names =
     filter (\<lambda>n. fnmatch n pattern)
       (if ishidden pattern then names else filter (\<lambda>n. \<not> ishidden n) names)"

subsection \<open>Cell 1: moving the downloaded files\<close>

text \<open>
  The disk below the working directory: a directory is the list of its entries, a name
  with a file or with a directory each.
\<close>

datatype 'c node = File 'c | Dir "(string \<times> 'c node) list"

type_synonym 'c tree = "(string \<times> 'c node) list"

fun node_at :: "'c tree \<Rightarrow> string list \<Rightarrow> 'c node option" where
  "node_at t [] = Some (Dir t)"
| "node_at t (p # ps) =
     (case map_of t p of
        None \<Rightarrow> None
      | Some (File c) \<Rightarrow> (if ps = [] then Some (File c) else None)
      | Some (Dir es) \<Rightarrow> node_at es ps)"

fun remove_at :: "'c tree \<Rightarrow> string list \<Rightarrow> 'c tree" where
  "remove_at t [] = t"
| "remove_at t [p] = filter (\<lambda>(k, n). k \<noteq> p) t"
| "remove_at t (p # q # ps) =
     map (\<lambda>(k, n). if k = p
                  then (case n of Dir es \<Rightarrow> (k, Dir (remove_at es (q # ps))) | File c \<Rightarrow> (k, n))
                  else (k, n)) t"

definition is_dir :: "'c node \<Rightarrow> bool" where
  "is_dir n = (case n of Dir es \<Rightarrow> True | File c \<Rightarrow> False)"

definition download_path :: "string \<times> string \<Rightarrow> string list" where
  "download_path m = [''mastDownload'', ''HST'', fst m, snd m]"

text \<open>
  \<open>glob.glob('./mastDownload/HST/*/*fl?.fits')\<close>: the directories of
  \<open>./mastDownload/HST\<close> that \<open>*\<close> matches, and in each the entries that
  \<open>*fl?.fits\<close> matches; a match is kept as its last two components.
\<close>

definition glob_downloads :: "'c tree \<Rightarrow> (string \<times> string) list" where
  "glob_downloads t =
     (case node_at t [''mastDownload'', ''HST''] of
        Some (Dir hst) \<Rightarrow>
          concat (map (\<lambda>d. case map_of hst d of
                               Some (Dir es) \<Rightarrow> map (\<lambda>n. (d, n)) (glob1 ''*fl?.fits'' (map fst es))
                             | _ \<Rightarrow> [])
                      (glob1 ''*'' (map fst (filter (\<lambda>(k, n). is_dir n) hst))))
      | _ \<Rightarrow> [])"

text \<open>
  \<open>os.rename(src, dst)\<close> with \<open>dst\<close> a name in the working directory, as POSIX
  defines it: an existing file is replaced by a file, an empty directory by a directory,
  and every other clash is an error.
\<close>

definition put_entry :: "'c tree \<Rightarrow> string \<Rightarrow> 'c node \<Rightarrow> 'c tree" where
  "put_entry t k n =
     (if k \<in> set (map fst t) then map (\<lambda>(k', n'). if k' = k then (k, n) else (k', n')) t
      else t @ [(k, n)])"

definition os_rename :: "'c tree \<Rightarrow> string list \<Rightarrow> string \<Rightarrow> py_error + 'c tree" where
  "os_rename t src dst =
     (case node_at t src of
        None \<Rightarrow> Inl (FileNotFoundError (concat (map (\<lambda>p. ''/'' @ p) src)))
      | Some n \<Rightarrow>
          (case map_of t dst of
             None \<Rightarrow> Inr (put_entry (remove_at t src) dst n)
           | Some (File c) \<Rightarrow>
               (if is_dir n then Inl (OSError ''NotADirectoryError'')
                else Inr (put_entry (remove_at t src) dst n))
           | Some (Dir es) \<Rightarrow>
               (if \<not> is_dir n then Inl (OSError ''IsADirectoryError'')
                else if es \<noteq> [] then Inl (OSError ''ENOTEMPTY'')
                else Inr (put_entry (remove_at t src) dst n))))"

text \<open>\<open>shutil.rmtree(name)\<close> for a name in the working directory.\<close>

definition shutil_rmtree :: "'c tree \<Rightarrow> string \<Rightarrow> py_error + 'c tree" where
  "shutil_rmtree t name =
     (case map_of t name of
        None \<Rightarrow> Inl (FileNotFoundError name)
      | Some (File c) \<Rightarrow> Inl (OSError ''NotADirectoryError'')
      | Some (Dir es) \<Rightarrow> Inr (remove_at t [name]))"

text \<open>
  The loop \<open>for flt in glob.glob(...)\<close>: \<open>flt_name = os.path.split(flt)[-1]\<close>, then
  \<open>os.rename(flt, flt_name)\<close>.
\<close>

fun rename_loop :: "'c tree \<Rightarrow> (string \<times> string) list \<Rightarrow> py_error + 'c tree" where
  "rename_loop t [] = Inr t"
| "rename_loop t (flt # rest) =
     (let flt_name = snd flt
      in ebind (os_rename t (download_path flt) flt_name) (\<lambda>t. rename_loop t rest))"

definition move_cell :: "'c tree \<Rightarrow> py_error + 'c tree" where
  "move_cell t = ebind (rename_loop t (glob_downloads t)) (\<lambda>t. shutil_rmtree t ''mastDownload'')"

subsection \<open>FITS files in the working directory\<close>

text \<open>
  A FITS file is a list of header-data units; a header maps keywords (upper case) to
  values; the data of an image unit is a two-dimensional array, a list of rows.
  The working directory is the list of its entries in the order the operating system
  lists them.
\<close>

record 'p hdu =
  hdr :: "string \<rightharpoonup> hval"
  pixels :: "'p list list option"

type_synonym 'p fits = "'p hdu list"

type_synonym 'p directory = "(string \<times> 'p fits) list"

definition to_upper :: "char \<Rightarrow> char" where
  "to_upper c = (if CHR ''a'' \<le> c \<and> c \<le> CHR ''z'' then char_of (of_char c - (32 :: nat)) else c)"

definition upcase :: "string \<Rightarrow> string" where
  "upcase s = map to_upper s"

text \<open>\<open>header[kw]\<close>: astropy looks keywords up without regard to case.\<close>

definition hdr_get :: "(string \<rightharpoonup> hval) \<Rightarrow> string \<Rightarrow> py_error + hval" where
  "hdr_get h kw = (case h (upcase kw) of None \<Rightarrow> Inl (KeyError (HStr kw)) | Some v \<Rightarrow> Inr v)"

definition fits_open :: "'p directory \<Rightarrow> string \<Rightarrow> py_error + 'p fits" where
  "fits_open dir name = (case map_of dir name of None \<Rightarrow> Inl (FileNotFoundError name) | Some f \<Rightarrow> Inr f)"

definition hdu_at :: "'p fits \<Rightarrow> nat \<Rightarrow> py_error + 'p hdu" where
  "hdu_at f n = (if n < length f then Inr (f ! n) else Inl IndexError)"

text \<open>\<open>fits.getheader(name, ext)\<close> and \<open>fits.getval(name, kw, ext=ext)\<close>.\<close>

definition getheader :: "'p directory \<Rightarrow> string \<Rightarrow> nat \<Rightarrow> py_error + (string \<rightharpoonup> hval)" where
  "getheader dir name ext = ebind (fits_open dir name) (\<lambda>f. ebind (hdu_at f ext) (\<lambda>h. Inr (hdr h)))"

definition getval :: "'p directory \<Rightarrow> string \<Rightarrow> string \<Rightarrow> nat \<Rightarrow> py_error + hval" where
  "getval dir name kw ext = ebind (getheader dir name ext) (\<lambda>h. hdr_get h kw)"

subsection \<open>Cell 2.1: the header summary table\<close>

definition keywords_ext0 :: "string list" where
  "keywords_ext0 = [''ROOTNAME'', ''ASN_ID'', ''TARGNAME'', ''DETECTOR'', ''FILTER'', ''EXPTIME'',
                    ''RA_TARG'', ''DEC_TARG'', ''POSTARG1'', ''POSTARG2'', ''DATE-OBS'']"

definition keywords_ext1 :: "string list" where
  "keywords_ext1 = [''ORIENTAT'']"

definition table_dtypes :: "string list" where
  "table_dtypes = [''str'', ''str'', ''str'', ''str'', ''str'', ''f8'', ''f8'', ''f8'', ''f8'', ''f8'', ''str'', ''f8'']"

text \<open>The two inner loops: \<open>path_data.append(fits.getval(flt_file, keyword, ext=ext))\<close>.\<close>

fun append_vals :: "'p directory \<Rightarrow> string \<Rightarrow> nat \<Rightarrow> string list \<Rightarrow> hval list \<Rightarrow> py_error + hval list" where
  "append_vals dir flt_file ext [] path_data = Inr path_data"
| "append_vals dir flt_file ext (keyword # rest) path_data =
     ebind (getval dir flt_file keyword ext)
       (\<lambda>v. append_vals dir flt_file ext rest (path_data @ [v]))"

text \<open>The loop \<open>for flt_file in flt_files\<close>, with \<open>data\<close> as its state.\<close>

fun header_loop :: "'p directory \<Rightarrow> string list \<Rightarrow> hval list list \<Rightarrow> py_error + hval list list" where
  "header_loop dir [] data = Inr data"
| "header_loop dir (flt_file # rest) data =
     ebind (append_vals dir flt_file 0 keywords_ext0 [])
       (\<lambda>path_data. ebind (append_vals dir flt_file 1 keywords_ext1 path_data)
          (\<lambda>path_data. header_loop dir rest (data @ [path_data])))"

text \<open>
  \<open>Table(np.array(data), names=keywords, dtype=[...])\<close>. The conversion of a cell to
  the \<open>dtype\<close> of its column is astropy's; it is the parameter \<open>cast\<close>, which may
  raise (a string under \<open>f8\<close> that spells no number).
\<close>

record 'c astropy_table =
  colnames :: "string list"
  tabrows :: "'c list list"

definition make_table ::
  "(string \<Rightarrow> hval \<Rightarrow> py_error + 'c) \<Rightarrow> string list \<Rightarrow> string list \<Rightarrow> hval list list
     \<Rightarrow> py_error + 'c astropy_table" where
  "make_table cast names dtypes data =
     ebind (emap (\<lambda>row. emap (\<lambda>(dt, v). cast dt v) (zip dtypes row)) data)
       (\<lambda>rows. Inr \<lparr>colnames = names, tabrows = rows\<rparr>)"

text \<open>The cell: it assigns \<open>flt_files\<close> and \<open>table\<close>.\<close>

definition header_cell ::
  "(string \<Rightarrow> hval \<Rightarrow> py_error + 'c) \<Rightarrow> 'p directory \<Rightarrow> py_error + (string list \<times> 'c astropy_table)" where
  "header_cell cast dir =
     (let flt_files = sort (glob1 ''*fl?.fits'' (map fst dir))
      in ebind (header_loop dir flt_files [])
           (\<lambda>data. ebind (make_table cast (keywords_ext0 @ keywords_ext1) table_dtypes data)
              (\<lambda>table. Inr (flt_files, table))))"

text \<open>The row of one exposure, read as a whole: the value of the two inner loops.\<close>

definition row_of :: "'p directory \<Rightarrow> string \<Rightarrow> py_error + hval list" where
  "row_of dir f = ebind (emap (\<lambda>kw. getval dir f kw 0) keywords_ext0)
     (\<lambda>a. ebind (emap (\<lambda>kw. getval dir f kw 1) keywords_ext1) (\<lambda>b. Inr (a @ b)))"

subsection \<open>Cell 2.3: the alignment table\<close>

definition ext_0_kws :: "string list" where
  "ext_0_kws = [''DETECTOR'', ''EXPTIME'']"

definition ext_1_kws :: "string list" where
  "ext_1_kws = [''WCSNAME'', ''NMATCHES'', ''RMS_RA'', ''RMS_DEC'']"

text \<open>Plate scale in arcsec per pixel.\<close>

definition det_scale :: "string \<rightharpoonup> rat" where
  "det_scale = map_of [(''IR'', 1283 / 10000), (''UVIS'', 396 / 10000), (''WFC'', 5 / 100)]"

text \<open>\<open>det_scale[key]\<close>: a key that is no string of the dictionary raises KeyError.\<close>

definition det_scale_get :: "hval \<Rightarrow> py_error + rat" where
  "det_scale_get key =
     (case key of
        HStr d \<Rightarrow> (case det_scale d of None \<Rightarrow> Inl (KeyError key) | Some sc \<Rightarrow> Inr sc)
      | HNum x \<Rightarrow> Inl (KeyError key))"

text \<open>
  \<open>col_dict = defaultdict(list)\<close> keeps its keys in the order of their first use;
  \<open>col_dict[key].append(v)\<close> creates the column when the key is new.
\<close>

type_synonym col_dict = "(string \<times> hval list) list"

definition col_append :: "col_dict \<Rightarrow> string \<Rightarrow> hval \<Rightarrow> col_dict" where
  "col_append d key v =
     (if key \<in> set (map fst d)
      then map (\<lambda>(k, vs). if k = key then (k, vs @ [v]) else (k, vs)) d
      else d @ [(key, [v])])"

text \<open>\<open>sub in s\<close> on strings.\<close>

fun contains :: "string \<Rightarrow> string \<Rightarrow> bool" where
  "contains sub [] = (sub = [])"
| "contains sub (c # s) = (take (length sub) (c # s) = sub \<or> contains sub s)"

text \<open>
  \<open>np.around(x, d)\<close> and \<open>np.round(x, d)\<close>: scale by \<open>10\<^sup>d\<close>, round to the
  nearest integer with ties to even, scale back. A string has no such operation.
\<close>

definition np_around :: "hval \<Rightarrow> nat \<Rightarrow> py_error + hval" where
  "np_around v d =
     (case v of
        HNum x \<Rightarrow> Inr (HNum (of_int (round_half_even (x * 10 ^ d)) / 10 ^ d))
      | HStr s \<Rightarrow> Inl TypeError)"

text \<open>\<open>v / c\<close> for a header value \<open>v\<close> and a float \<open>c\<close> that is not zero.\<close>

definition py_truediv :: "hval \<Rightarrow> rat \<Rightarrow> py_error + hval" where
  "py_truediv v c = (case v of HNum x \<Rightarrow> Inr (HNum (x / c)) | HStr s \<Rightarrow> Inl TypeError)"

fun ext0_loop :: "(string \<rightharpoonup> hval) \<Rightarrow> string list \<Rightarrow> col_dict \<Rightarrow> py_error + col_dict" where
  "ext0_loop hdr0 [] cd = Inr cd"
| "ext0_loop hdr0 (kw # rest) cd =
     ebind (hdr_get hdr0 kw) (\<lambda>v. ext0_loop hdr0 rest (col_append cd kw v))"

fun ext1_loop :: "(string \<rightharpoonup> hval) \<Rightarrow> string list \<Rightarrow> col_dict \<Rightarrow> py_error + col_dict" where
  "ext1_loop hdr1 [] cd = Inr cd"
| "ext1_loop hdr1 (kw # rest) cd =
     ebind (if contains ''RMS'' kw
            then ebind (hdr_get hdr1 kw) (\<lambda>h. np_around h 1)
            else hdr_get hdr1 kw)
       (\<lambda>val. ext1_loop hdr1 rest (col_append cd kw val))"

text \<open>
  The conversion of the fit RMS from mas to pixels:
  \<open>np.round(hdr1[kw]/1000./det_scale[hdr0['DETECTOR']], 2)\<close>, evaluated from left to
  right.
\<close>

definition rms_to_pix :: "(string \<rightharpoonup> hval) \<Rightarrow> (string \<rightharpoonup> hval) \<Rightarrow> string \<Rightarrow> py_error + hval" where
  "rms_to_pix hdr0 hdr1 kw =
     ebind (hdr_get hdr1 kw) (\<lambda>h.
     ebind (py_truediv h 1000) (\<lambda>arcsec.
     ebind (hdr_get hdr0 ''DETECTOR'') (\<lambda>det.
     ebind (det_scale_get det) (\<lambda>sc.
     ebind (py_truediv arcsec sc) (\<lambda>q. np_around q 2)))))"

fun pix_loop :: "(string \<rightharpoonup> hval) \<Rightarrow> (string \<rightharpoonup> hval) \<Rightarrow> string list \<Rightarrow> col_dict \<Rightarrow> py_error + col_dict" where
  "pix_loop hdr0 hdr1 [] cd = Inr cd"
| "pix_loop hdr0 hdr1 (kw # rest) cd =
     ebind (rms_to_pix hdr0 hdr1 kw)
       (\<lambda>val. pix_loop hdr0 hdr1 rest (col_append cd (kw @ ''_pix'') val))"

text \<open>The body of \<open>for f in flt_files\<close> for one file, and the loop.\<close>

definition wcs_file :: "'p directory \<Rightarrow> string \<Rightarrow> col_dict \<Rightarrow> py_error + col_dict" where
  "wcs_file dir f cd =
     (let cd = col_append cd ''filename'' (HStr f)
      in ebind (getheader dir f 0) (\<lambda>hdr0.
         ebind (getheader dir f 1) (\<lambda>hdr1.
         ebind (ext0_loop hdr0 ext_0_kws cd) (\<lambda>cd.
         ebind (ext1_loop hdr1 ext_1_kws cd) (\<lambda>cd.
         pix_loop hdr0 hdr1 [''RMS_RA'', ''RMS_DEC''] cd)))))"

fun wcs_loop :: "'p directory \<Rightarrow> string list \<Rightarrow> col_dict \<Rightarrow> py_error + col_dict" where
  "wcs_loop dir [] cd = Inr cd"
| "wcs_loop dir (f # rest) cd = ebind (wcs_file dir f cd) (\<lambda>cd. wcs_loop dir rest cd)"

text \<open>\<open>Table(col_dict)\<close>: the columns in the order of the keys, all of one length.\<close>

definition table_of_columns :: "col_dict \<Rightarrow> py_error + col_dict" where
  "table_of_columns cd =
     (if list_all (\<lambda>(k, vs). length vs = length (snd (hd cd))) cd then Inr cd else Inl ValueError)"

text \<open>The cell reads the variable \<open>flt_files\<close> that cell 2.1 assigned.\<close>

definition wcs_cell :: "'p directory \<Rightarrow> string list \<Rightarrow> py_error + col_dict" where
  "wcs_cell dir flt_files = ebind (wcs_loop dir flt_files []) (\<lambda>col_dict. table_of_columns col_dict)"

text \<open>
  A well-formed exposure for the alignment cell: the file is there, it has a primary unit
  and a first extension, and an RMS card of the extension, where present, is a number.
\<close>

definition rms_cards_numeric :: "(string \<rightharpoonup> hval) \<Rightarrow> bool" where
  "rms_cards_numeric h = list_all (\<lambda>kw. case h kw of Some (HStr s) \<Rightarrow> False | _ \<Rightarrow> True) [''RMS_RA'', ''RMS_DEC'']"

definition fits_ok :: "'p directory \<Rightarrow> string \<Rightarrow> bool" where
  "fits_ok dir f = (case map_of dir f of None \<Rightarrow> False | Some file \<Rightarrow> 2 \<le> length file \<and> rms_cards_numeric (hdr (file ! 1)))"

definition is_KeyError :: "py_error \<Rightarrow> bool" where
  "is_KeyError e = (case e of KeyError k \<Rightarrow> True | _ \<Rightarrow> False)"

subsection \<open>The variables of the kernel\<close>

text \<open>
  The cells run in one Python process; what one run leaves behind is there for the next.
  The record holds the variables the two inspection cells assign. A cell that raises
  assigns no table.
\<close>

record 'c kernel =
  k_flt_files :: "string list"
  k_data :: "hval list list"
  k_table :: "'c astropy_table option"
  k_col_dict :: col_dict
  k_wcstable :: "col_dict option"

definition run_header_cell ::
  "(string \<Rightarrow> hval \<Rightarrow> py_error + 'c) \<Rightarrow> 'p directory \<Rightarrow> 'c kernel \<Rightarrow> py_error + 'c kernel" where
  "run_header_cell cast dir k =
     (let k = k\<lparr>k_flt_files := sort (glob1 ''*fl?.fits'' (map fst dir))\<rparr>;
          k = k\<lparr>k_data := []\<rparr>
      in ebind (header_loop dir (k_flt_files k) (k_data k)) (\<lambda>data.
         let k = k\<lparr>k_data := data\<rparr>
         in ebind (make_table cast (keywords_ext0 @ keywords_ext1) table_dtypes (k_data k))
              (\<lambda>table. Inr (k\<lparr>k_table := Some table\<rparr>))))"

definition run_wcs_cell :: "'p directory \<Rightarrow> 'c kernel \<Rightarrow> py_error + 'c kernel" where
  "run_wcs_cell dir k =
     (let k = k\<lparr>k_col_dict := []\<rparr>
      in ebind (wcs_loop dir (k_flt_files k) (k_col_dict k)) (\<lambda>cd.
         let k = k\<lparr>k_col_dict := cd\<rparr>
         in ebind (table_of_columns (k_col_dict k)) (\<lambda>t. Inr (k\<lparr>k_wcstable := Some t\<rparr>))))"

text \<open>What the inspection cells can see of a directory: names and headers, no pixels.\<close>

definition header_view :: "'p directory \<Rightarrow> (string \<times> (string \<rightharpoonup> hval) list) list" where
  "header_view dir = map (\<lambda>(name, f). (name, map hdr f)) dir"

subsection \<open>get\_vals\_from\_mdriztab\<close>

definition default_kw_list :: "string list" where
  "default_kw_list = [''driz_sep_bits'', ''combine_type'', ''driz_cr_snr'', ''driz_cr_scale'', ''final_bits'']"

text \<open>The loop \<open>for k in kw_list: requested_params[k] = mdriz_dict[k]\<close>.\<close>

fun requested_loop :: "(string \<rightharpoonup> 'v) \<Rightarrow> string list \<Rightarrow> (string \<rightharpoonup> 'v) \<Rightarrow> py_error + (string \<rightharpoonup> 'v)" where
  "requested_loop mdriz_dict [] requested_params = Inr requested_params"
| "requested_loop mdriz_dict (k # rest) requested_params =
     (case mdriz_dict k of
        None \<Rightarrow> Inl (KeyError (HStr k))
      | Some v \<Rightarrow> requested_loop mdriz_dict rest (requested_params(k \<mapsto> v)))"

text \<open>
  \<open>drizzlepac.processInput.getMdriztabPars\<close> is the library's; it is a parameter.
  An omitted \<open>kw_list\<close> is \<open>None\<close> and stands for the default list.
\<close>

definition get_vals_from_mdriztab ::
  "(string list \<Rightarrow> py_error + (string \<rightharpoonup> 'v)) \<Rightarrow> string list \<Rightarrow> string list option
     \<Rightarrow> py_error + (string \<rightharpoonup> 'v)" where
  "get_vals_from_mdriztab getMdriztabPars input_images kw_list =
     ebind (getMdriztabPars input_images) (\<lambda>mdriz_dict.
       requested_loop mdriz_dict (case kw_list of None \<Rightarrow> default_kw_list | Some l \<Rightarrow> l) Map.empty)"

subsection \<open>The sweep over final\_pixfrac\<close>

text \<open>
  \<open>np.arange(start, stop, step)\<close>: \<open>ceil((stop - start) / step)\<close> values
  \<open>start + i * step\<close>. In binary64 the quotient \<open>(1.1 - 0.1) / 0.1\<close> rounds to
  exactly 10 and every value is within \<open>10\<^sup>-\<^sup>1\<^sup>5\<close> of the rational one, far from
  a rounding boundary of \<open>format_1f\<close>.
\<close>

definition np_arange :: "rat \<Rightarrow> rat \<Rightarrow> rat \<Rightarrow> rat list" where
  "np_arange start stop step =
     map (\<lambda>i. start + of_nat i * step) [0 ..< nat \<lceil>(stop - start) / step\<rceil>]"

definition pixfracs :: "rat list" where
  "pixfracs = np_arange (1 / 10) (11 / 10) (1 / 10)"

text \<open>
  One call of \<open>drizzlepac.astrodrizzle.AstroDrizzle\<close>: the arguments that vary in the
  notebook. The library is outside the repository; a call is recorded, not computed.
\<close>

record 'p drizzle_call =
  input_files :: "string list"
  output_name :: string
  mdriz_params :: 'p
  build :: bool
  final_pixfrac :: "rat option"
  final_scale :: "rat option"

definition sweep_call :: "string list \<Rightarrow> 'p \<Rightarrow> rat \<Rightarrow> 'p drizzle_call" where
  "sweep_call flt_files selected_params pixfrac =
     (let outname = ''f160w_'' @ format_1f pixfrac
      in \<lparr>input_files = flt_files, output_name = outname, mdriz_params = selected_params,
          build = True, final_pixfrac = Some pixfrac, final_scale = Some (65 / 1000)\<rparr>)"

text \<open>The \<open>for pixfrac in pixfracs\<close> loop, with the calls made so far as its state.\<close>

fun sweep_loop :: "string list \<Rightarrow> 'p \<Rightarrow> rat list \<Rightarrow> 'p drizzle_call list \<Rightarrow> 'p drizzle_call list" where
  "sweep_loop flt_files selected_params [] calls = calls"
| "sweep_loop flt_files selected_params (pixfrac # rest) calls =
     sweep_loop flt_files selected_params rest
       (calls @ [sweep_call flt_files selected_params pixfrac])"

definition pixfrac_sweep :: "string list \<Rightarrow> 'p \<Rightarrow> 'p drizzle_call list" where
  "pixfrac_sweep flt_files selected_params = sweep_loop flt_files selected_params pixfracs []"

text \<open>
  With \<open>build=True\<close> AstroDrizzle writes one multi-extension file per call, named after the argument
  \<open>output\<close> (field \<open>output_name\<close>); for FLT input its suffix is \<open>_drz.fits\<close>, which is the name the notebook
  itself opens (\<open>f160w_noopt_drz.fits\<close>, \<open>f160w_0.1_drz.fits\<close>, \<open>f160w_1.0_drz.fits\<close>).
\<close>

definition product_name :: "'p drizzle_call \<Rightarrow> string" where
  "product_name c = output_name c @ ''_drz.fits''"

subsection \<open>numpy floats\<close>

text \<open>
  A floating-point value of numpy: a finite number, an infinity with its sign, or NaN.
  The sign of a zero is not kept; no result below depends on it.
\<close>

datatype fl = Fin rat | PosInf | NegInf | NaN

text \<open>
  Storing a header value into a float array: a number is stored as it is, a string goes
  through Python's \<open>float()\<close>, which is the parameter \<open>float_of_str\<close> and raises
  ValueError on a string that spells no number.
\<close>

definition to_float :: "(string \<Rightarrow> fl option) \<Rightarrow> hval \<Rightarrow> py_error + fl" where
  "to_float float_of_str v =
     (case v of
        HNum x \<Rightarrow> Inr (Fin x)
      | HStr s \<Rightarrow> (case float_of_str s of None \<Rightarrow> Inl ValueError | Some y \<Rightarrow> Inr y))"

text \<open>\<open>np.empty(n)\<close>: \<open>n\<close> cells with whatever the memory held, the parameter \<open>junk\<close>.\<close>

definition np_empty :: "(nat \<Rightarrow> 'a) \<Rightarrow> nat \<Rightarrow> 'a list" where
  "np_empty junk n = map junk [0 ..< n]"

subsection \<open>The evaluation cell: RMS over median of the weight images\<close>

text \<open>\<open>xs[lo:hi]\<close>: a negative bound counts from the end, and both are clipped.\<close>

definition py_slice :: "int \<Rightarrow> int \<Rightarrow> 'a list \<Rightarrow> 'a list" where
  "py_slice lo hi xs =
     (let n = int (length xs);
          a = (if lo < 0 then max 0 (lo + n) else min lo n);
          b = (if hi < 0 then max 0 (hi + n) else min hi n)
      in drop (nat a) (take (nat b) xs))"

text \<open>\<open>wht[ylims[0]: ylims[1], xlims[0]: xlims[1]]\<close>; a unit without data has \<open>None\<close>.\<close>

definition subregion :: "'p list list option \<Rightarrow> int \<times> int \<Rightarrow> int \<times> int \<Rightarrow> py_error + 'p list list" where
  "subregion wht ylims xlims =
     (case wht of
        None \<Rightarrow> Inl TypeError
      | Some a \<Rightarrow> Inr (map (py_slice (fst xlims) (snd xlims)) (py_slice (fst ylims) (snd ylims) a)))"

text \<open>
  The operations of numpy on the pixel data, whose floating-point type is the type of the
  image: \<open>np.std\<close>, \<open>np.median\<close> and the division of two numpy scalars.
\<close>

record ('p, 'v) numpy_lib =
  np_std :: "'p list list \<Rightarrow> 'v"
  np_median :: "'p list list \<Rightarrow> 'v"
  np_divide :: "'v \<Rightarrow> 'v \<Rightarrow> 'v"

text \<open>The variables the cell assigns.\<close>

record 'v eval_vars =
  std_med :: "'v list"
  fraclist :: "fl list"
  target :: "hval option"
  scale :: "hval option"
  nimg :: "hval option"

text \<open>The body of \<open>for i, im in enumerate(whtlist)\<close>.\<close>

definition eval_body ::
  "('p, 'v) numpy_lib \<Rightarrow> (string \<Rightarrow> fl option) \<Rightarrow> 'p directory \<Rightarrow> int \<times> int \<Rightarrow> int \<times> int
     \<Rightarrow> nat \<Rightarrow> string \<Rightarrow> 'v eval_vars \<Rightarrow> py_error + 'v eval_vars" where
  "eval_body L float_of_str dir xlims ylims i im s =
     ebind (fits_open dir im) (\<lambda>hdu.
     ebind (hdu_at hdu 0) (\<lambda>h0.
     ebind (hdu_at hdu 2) (\<lambda>h2.
     let header = hdr h0; wht = pixels h2 in
     ebind (if i = 0
            then ebind (hdr_get header ''TARGNAME'') (\<lambda>t.
                 ebind (hdr_get header ''D001SCAL'') (\<lambda>sc.
                 ebind (hdr_get header ''NDRIZIM'') (\<lambda>n.
                 Inr (s\<lparr>target := Some t, scale := Some sc, nimg := Some n\<rparr>))))
            else Inr s) (\<lambda>s.
     ebind (subregion wht ylims xlims) (\<lambda>region1.
     let wht_std = np_std L region1 in
     ebind (subregion wht ylims xlims) (\<lambda>region2.
     let wht_med = np_median L region2;
         s = s\<lparr>std_med := (std_med s)[i := np_divide L wht_std wht_med]\<rparr> in
     ebind (hdr_get header ''D001PIXF'') (\<lambda>pixf.
     ebind (to_float float_of_str pixf) (\<lambda>x.
     Inr (s\<lparr>fraclist := (fraclist s)[i := x]\<rparr>)))))))))"

fun eval_loop ::
  "('p, 'v) numpy_lib \<Rightarrow> (string \<Rightarrow> fl option) \<Rightarrow> 'p directory \<Rightarrow> int \<times> int \<Rightarrow> int \<times> int
     \<Rightarrow> (nat \<times> string) list \<Rightarrow> 'v eval_vars \<Rightarrow> py_error + 'v eval_vars" where
  "eval_loop L float_of_str dir xlims ylims [] s = Inr s"
| "eval_loop L float_of_str dir xlims ylims ((i, im) # rest) s =
     ebind (eval_body L float_of_str dir xlims ylims i im s)
       (\<lambda>s. eval_loop L float_of_str dir xlims ylims rest s)"

text \<open>
  The cell. \<open>xlims\<close> and \<open>ylims\<close> are the pixel bounds
  \<open>radeclims.to_pixel(im1wcs)[...].astype(int)\<close>, computed once before the loop from the
  world coordinate system of the first, unoptimised product; they are parameters.
\<close>

definition eval_cell ::
  "('p, 'v) numpy_lib \<Rightarrow> (string \<Rightarrow> fl option) \<Rightarrow> (nat \<Rightarrow> 'v) \<Rightarrow> (nat \<Rightarrow> fl) \<Rightarrow> 'p directory
     \<Rightarrow> int \<times> int \<Rightarrow> int \<times> int \<Rightarrow> py_error + 'v eval_vars" where
  "eval_cell L float_of_str junk1 junk2 dir xlims ylims =
     (let whtlist = glob1 ''f160w_0.[0-9]*drz.fits'' (map fst dir);
          s = \<lparr>std_med = np_empty junk1 (length whtlist), fraclist = np_empty junk2 (length whtlist),
               target = None, scale = None, nimg = None\<rparr>
      in eval_loop L float_of_str dir xlims ylims (zip [0 ..< length whtlist] whtlist) s)"

text \<open>The statistic of one weight image over the region, as the cell computes it.\<close>

definition weight_stat :: "('p, 'v) numpy_lib \<Rightarrow> int \<times> int \<Rightarrow> int \<times> int \<Rightarrow> 'p list list \<Rightarrow> 'v" where
  "weight_stat L xlims ylims wht =
     (let region = map (py_slice (fst xlims) (snd xlims)) (py_slice (fst ylims) (snd ylims) wht)
      in np_divide L (np_std L region) (np_median L region))"

text \<open>
  The entry of the parameter-sweep table for one product, read off the file directly:
  the statistic of its weight image paired with its D001PIXF card.
\<close>

definition sweep_entry ::
  "('p, 'v) numpy_lib \<Rightarrow> (string \<Rightarrow> fl option) \<Rightarrow> 'p directory \<Rightarrow> int \<times> int \<Rightarrow> int \<times> int
     \<Rightarrow> string \<Rightarrow> ('v \<times> fl) option" where
  "sweep_entry L float_of_str dir xlims ylims im =
     (case map_of dir im of
        None \<Rightarrow> None
      | Some f \<Rightarrow>
          if 2 < length f then
            (case pixels (f ! 2) of
               None \<Rightarrow> None
             | Some wht \<Rightarrow>
                 (case hdr (f ! 0) ''D001PIXF'' of
                    None \<Rightarrow> None
                  | Some pixf \<Rightarrow>
                      (case to_float float_of_str pixf of
                         Inl e \<Rightarrow> None
                       | Inr x \<Rightarrow> Some (weight_stat L xlims ylims wht, x))))
          else None)"

subsection \<open>What AstroDrizzle leaves in the working directory\<close>

text \<open>
  The product of one call, reduced to what the notebook reads from it: the cards
  TARGNAME, D001SCAL, NDRIZIM and D001PIXF of the primary header (the library records the
  \<open>final_pixfrac\<close> of the call in D001PIXF, the card the evaluation cell reads back), a
  science image in extension 1 and a weight image in extension 2. The images are the
  library's work and are parameters here.
\<close>

definition drz_product :: "'q drizzle_call \<Rightarrow> 'p list list \<Rightarrow> 'p list list \<Rightarrow> 'p fits" where
  "drz_product c sci wht =
     [\<lparr>hdr = map_of [(''TARGNAME'', HStr ''NGC-3370''),
                       (''D001SCAL'', HNum (case final_scale c of None \<Rightarrow> 1283 / 10000 | Some x \<Rightarrow> x)),
                       (''NDRIZIM'', HNum (of_nat (length (input_files c)))),
                       (''D001PIXF'', HNum (case final_pixfrac c of None \<Rightarrow> 1 | Some x \<Rightarrow> x))],
        pixels = None\<rparr>,
      \<lparr>hdr = Map.empty, pixels = Some sci\<rparr>,
      \<lparr>hdr = Map.empty, pixels = Some wht\<rparr>]"

definition write_product :: "'p directory \<Rightarrow> string \<times> 'p fits \<Rightarrow> 'p directory" where
  "write_product dir entry =
     (if fst entry \<in> set (map fst dir)
      then map (\<lambda>(n, f). if n = fst entry then entry else (n, f)) dir
      else dir @ [entry])"

subsection \<open>Example data\<close>

text \<open>
  An exposure as the archive delivers it, reduced to the cards the notebook reads: the
  primary header, and the header and image of the first extension.
\<close>

definition flt_exposure :: "string \<Rightarrow> string \<Rightarrow> rat \<Rightarrow> rat \<Rightarrow> rat fits" where
  "flt_exposure rootname detector postarg1 postarg2 =
     [\<lparr>hdr = map_of [(''ROOTNAME'', HStr rootname), (''ASN_ID'', HStr ''IB1F19010''),
                       (''TARGNAME'', HStr ''NGC-3370''), (''DETECTOR'', HStr detector),
                       (''FILTER'', HStr ''F160W''), (''EXPTIME'', HNum (1005 / 2)),
                       (''RA_TARG'', HNum (647 / 4)), (''DEC_TARG'', HNum (69 / 4)),
                       (''POSTARG1'', HNum postarg1), (''POSTARG2'', HNum postarg2),
                       (''DATE-OBS'', HStr ''2009-11-17''),
                       (''MDRIZTAB'', HStr ''iref$3562021pi_mdz.fits'')],
        pixels = None\<rparr>,
      \<lparr>hdr = map_of [(''ORIENTAT'', HNum (-133)), (''IDCSCALE'', HNum (1 / 8)),
                       (''WCSNAME'', HStr ''IDC_w3m18525i-FIT_REL_GSC242''),
                       (''NMATCHES'', HNum 18), (''RMS_RA'', HNum (71 / 4)), (''RMS_DEC'', HNum (43 / 2))],
        pixels = Some [[1, 2], [3, 4]]\<rparr>]"

definition example_dir :: "rat directory" where
  "example_dir =
     [(''ib1f19l7q_flt.fits'', flt_exposure ''ib1f19l7q'' ''IR'' (5 / 16) (1 / 4)),
      (''notes.txt'', []),
      (''ib1f19l6q_flt.fits'', flt_exposure ''ib1f19l6q'' ''IR'' 0 0)]"

definition example_table :: "hval astropy_table" where
  "example_table =
     \<lparr>colnames = [''ROOTNAME'', ''ASN_ID'', ''TARGNAME'', ''DETECTOR'', ''FILTER'', ''EXPTIME'',
                   ''RA_TARG'', ''DEC_TARG'', ''POSTARG1'', ''POSTARG2'', ''DATE-OBS'', ''ORIENTAT''],
      tabrows =
        [[HStr ''ib1f19l6q'', HStr ''IB1F19010'', HStr ''NGC-3370'', HStr ''IR'', HStr ''F160W'',
          HNum (1005 / 2), HNum (647 / 4), HNum (69 / 4), HNum 0, HNum 0, HStr ''2009-11-17'',
          HNum (- 133)],
         [HStr ''ib1f19l7q'', HStr ''IB1F19010'', HStr ''NGC-3370'', HStr ''IR'', HStr ''F160W'',
          HNum (1005 / 2), HNum (647 / 4), HNum (69 / 4), HNum (5 / 16), HNum (1 / 4),
          HStr ''2009-11-17'', HNum (- 133)]]\<rparr>"

definition example_dir_hrc :: "rat directory" where
  "example_dir_hrc = [(''j8c0d1011_flt.fits'', flt_exposure ''j8c0d1011'' ''HRC'' 0 0)]"

definition example_ext1_cols :: col_dict where
  "example_ext1_cols = [(''WCSNAME'', [HStr ''IDC_w3m18525i-FIT_REL_GSC242'']),
      (''NMATCHES'', [HNum 18]), (''RMS_RA'', [HNum (89 / 5)]), (''RMS_DEC'', [HNum (43 / 2)])]"

definition example_wcstable :: col_dict where
  "example_wcstable =
     [(''filename'', [HStr ''ib1f19l6q_flt.fits'', HStr ''ib1f19l7q_flt.fits'']),
      (''DETECTOR'', [HStr ''IR'', HStr ''IR'']),
      (''EXPTIME'', [HNum (1005 / 2), HNum (1005 / 2)]),
      (''WCSNAME'', [HStr ''IDC_w3m18525i-FIT_REL_GSC242'', HStr ''IDC_w3m18525i-FIT_REL_GSC242'']),
      (''NMATCHES'', [HNum 18, HNum 18]),
      (''RMS_RA'', [HNum (89 / 5), HNum (89 / 5)]),
      (''RMS_DEC'', [HNum (43 / 2), HNum (43 / 2)]),
      (''RMS_RA_pix'', [HNum (7 / 50), HNum (7 / 50)]),
      (''RMS_DEC_pix'', [HNum (17 / 100), HNum (17 / 100)])]"

definition example_mdriz :: "string \<rightharpoonup> hval" where
  "example_mdriz = map_of [(''driz_sep_bits'', HNum 11), (''combine_type'', HStr ''median''),
      (''driz_cr_snr'', HStr ''5.0 4.0''), (''driz_cr_scale'', HStr ''3.0 2.4''),
      (''final_bits'', HNum 11), (''final_pixfrac'', HNum 1)]"

text \<open>The same exposures with their images blanked, and two states of the kernel.\<close>

definition example_dir_blank :: "rat directory" where
  "example_dir_blank = map (\<lambda>(name, f). (name, map (\<lambda>h. h\<lparr>pixels := None\<rparr>) f)) example_dir"

definition kernel_fresh :: "hval kernel" where
  "kernel_fresh = \<lparr>k_flt_files = [''ib1f19l6q_flt.fits'', ''ib1f19l7q_flt.fits''], k_data = [],
     k_table = None, k_col_dict = [], k_wcstable = None\<rparr>"

definition kernel_used :: "hval kernel" where
  "kernel_used = \<lparr>k_flt_files = [''ib1f19l6q_flt.fits'', ''ib1f19l7q_flt.fits''],
     k_data = [[HStr ''stale'']],
     k_table = Some \<lparr>colnames = [''ROOTNAME''], tabrows = [[HStr ''stale'']]\<rparr>,
     k_col_dict = [(''filename'', [HStr ''stale.fits'']), (''RMS_RA'', [HNum 1])],
     k_wcstable = Some [(''filename'', [HStr ''stale.fits''])]\<rparr>"

text \<open>
  numpy on exact numbers, for examples: the population standard deviation and the
  median of a flattened array, and a division; \<open>None\<close> stands for a result that is no
  finite number (the statistics of an empty region, a division by zero).
\<close>

definition pop_std :: "rat list list \<Rightarrow> real option" where
  "pop_std rows =
     (let xs = concat rows; n = length xs; mean = sum_list xs / of_nat n
      in if n = 0 then None
         else Some (sqrt (of_rat (sum_list (map (\<lambda>x. (x - mean) ^ 2) xs) / of_nat n))))"

definition median :: "rat list list \<Rightarrow> real option" where
  "median rows =
     (let xs = sort (concat rows); n = length xs
      in if n = 0 then None
         else if odd n then Some (of_rat (xs ! (n div 2)))
         else Some (of_rat ((xs ! (n div 2 - 1) + xs ! (n div 2)) / 2)))"

definition float_div :: "real option \<Rightarrow> real option \<Rightarrow> real option" where
  "float_div a b =
     (case (a, b) of
        (Some x, Some y) \<Rightarrow> if y = 0 then None else Some (x / y)
      | _ \<Rightarrow> None)"

definition numpy_real :: "(rat, real option) numpy_lib" where
  "numpy_real = \<lparr>np_std = pop_std, np_median = median, np_divide = float_div\<rparr>"

text \<open>
  The working directory after the three drizzle cells: the two exposures, the product
  without optimisation, the product with \<open>final_pixfrac=0.8\<close> and the ten products of
  the sweep, every product with the same small weight image.
\<close>

definition example_wht :: "rat list list" where
  "example_wht = [[1, 3, 5], [1, 3, 7], [3, 1, 9]]"

definition drizzle_calls :: "unit drizzle_call list" where
  "drizzle_calls =
     [\<lparr>input_files = [''ib1f19l6q_flt.fits'', ''ib1f19l7q_flt.fits''], output_name = ''f160w_noopt'',
       mdriz_params = (), build = True, final_pixfrac = None, final_scale = None\<rparr>,
      \<lparr>input_files = [''ib1f19l6q_flt.fits'', ''ib1f19l7q_flt.fits''], output_name = ''f160w_opt'',
       mdriz_params = (), build = True, final_pixfrac = Some (8 / 10), final_scale = Some (65 / 1000)\<rparr>]
     @ pixfrac_sweep [''ib1f19l6q_flt.fits'', ''ib1f19l7q_flt.fits''] ()"

definition swept_dir :: "rat directory" where
  "swept_dir = foldl write_product example_dir
     (map (\<lambda>c. (product_name c, drz_product c example_wht example_wht)) drizzle_calls)"

definition example_region :: "rat list list" where
  "example_region = [[1, 3], [3, 1]]"

definition example_eval_vars :: "real option eval_vars" where
  "example_eval_vars =
     \<lparr>std_med = replicate 9 (Some (1 / 2)),
      fraclist = map Fin [1 / 10, 2 / 10, 3 / 10, 4 / 10, 5 / 10, 6 / 10, 7 / 10, 8 / 10, 9 / 10],
      target = Some (HStr ''NGC-3370''), scale = Some (HNum (65 / 1000)), nimg = Some (HNum 2)\<rparr>"

text \<open>The disk after the download of two exposures, with a file of the user's beside it.\<close>

definition downloaded_tree :: "string tree" where
  "downloaded_tree =
     [(''notes.txt'', File ''text''),
      (''mastDownload'', Dir [(''HST'', Dir
          [(''ib1f19l6q'', Dir [(''ib1f19l6q_flt.fits'', File ''exposure l6q'')]),
           (''ib1f19l7q'', Dir [(''ib1f19l7q_flt.fits'', File ''exposure l7q''),
                               (''ib1f19l7q_raw.fits'', File ''raw l7q'')])])])]"

definition moved_tree :: "string tree" where
  "moved_tree =
     [(''notes.txt'', File ''text''),
      (''ib1f19l6q_flt.fits'', File ''exposure l6q''),
      (''ib1f19l7q_flt.fits'', File ''exposure l7q'')]"

section \<open>Properties\<close>

subsection \<open>Helper lemmas\<close>

lemma ebind_Inr_iff: "ebind m f = Inr y \<longleftrightarrow> (\<exists>x. m = Inr x \<and> f x = Inr y)"
  by (cases m) (simp_all add: ebind_def)

lemma ebind_Inl_iff: "ebind m f = Inl e \<longleftrightarrow> (m = Inl e \<or> (\<exists>x. m = Inr x \<and> f x = Inl e))"
  by (cases m) (simp_all add: ebind_def)

lemma ebind_simps [simp]: "ebind (Inl e) f = Inl e" "ebind (Inr x) f = f x"
  by (simp_all add: ebind_def)

lemma emap_Inr_length: "emap f xs = Inr ys \<Longrightarrow> length ys = length xs"
  by (induction xs arbitrary: ys) (auto simp: ebind_Inr_iff)

lemma emap_Inr_nth: "emap f xs = Inr ys \<Longrightarrow> i < length xs \<Longrightarrow> f (xs ! i) = Inr (ys ! i)"
proof (induction xs arbitrary: ys i)
  case Nil
  then show ?case by simp
next
  case (Cons x xs)
  then show ?case by (cases i) (auto simp: ebind_Inr_iff)
qed

lemma pixfracs_eq:
  "pixfracs = [1 / 10, 2 / 10, 3 / 10, 4 / 10, 5 / 10, 6 / 10, 7 / 10, 8 / 10, 9 / 10, 1]"
  by (simp add: pixfracs_def np_arange_def upt_rec)

lemma sweep_loop_eq:
  "sweep_loop flt_files selected_params ps calls = calls @ map (sweep_call flt_files selected_params) ps"
  by (induction ps arbitrary: calls) simp_all

lemma format_pixfracs:
  "map format_1f pixfracs = [''0.1'', ''0.2'', ''0.3'', ''0.4'', ''0.5'', ''0.6'', ''0.7'', ''0.8'', ''0.9'', ''1.0'']"
  by code_simp

lemma sweep_names:
  "map output_name (pixfrac_sweep flt_files selected_params) = map (\<lambda>s. ''f160w_'' @ s) (map format_1f pixfracs)"
  by (simp add: pixfrac_sweep_def sweep_loop_eq sweep_call_def Let_def comp_def)

lemma append_vals_eq:
  "append_vals dir f ext kws pd = Inr r \<Longrightarrow>
     \<exists>vs. emap (\<lambda>kw. getval dir f kw ext) kws = Inr vs \<and> r = pd @ vs"
proof (induction kws arbitrary: pd)
  case Nil
  then show ?case by simp
next
  case (Cons kw kws)
  from Cons.prems obtain v where v: "getval dir f kw ext = Inr v"
    and rest: "append_vals dir f ext kws (pd @ [v]) = Inr r"
    by (auto simp: ebind_Inr_iff)
  from Cons.IH[OF rest] obtain vs where "emap (\<lambda>kw. getval dir f kw ext) kws = Inr vs" "r = (pd @ [v]) @ vs"
    by blast
  with v show ?case by simp
qed

lemma header_loop_eq:
  "header_loop dir fs data = Inr r \<Longrightarrow> \<exists>rows. emap (row_of dir) fs = Inr rows \<and> r = data @ rows"
proof (induction fs arbitrary: data)
  case Nil
  then show ?case by simp
next
  case (Cons f fs)
  from Cons.prems obtain pd pd' where
    a: "append_vals dir f 0 keywords_ext0 [] = Inr pd"
    and b: "append_vals dir f 1 keywords_ext1 pd = Inr pd'"
    and c: "header_loop dir fs (data @ [pd']) = Inr r"
    by (auto simp: ebind_Inr_iff)
  from append_vals_eq[OF a] append_vals_eq[OF b] have "row_of dir f = Inr pd'"
    by (auto simp: row_of_def)
  moreover from Cons.IH[OF c] obtain rows where "emap (row_of dir) fs = Inr rows" "r = (data @ [pd']) @ rows"
    by blast
  ultimately show ?case by simp
qed

lemma row_of_nth:
  assumes "row_of dir f = Inr row"
  shows "length row = 12"
    and "j < 12 \<Longrightarrow> getval dir f ((keywords_ext0 @ keywords_ext1) ! j) (if j < 11 then 0 else 1) = Inr (row ! j)"
proof -
  from assms obtain a b where a: "emap (\<lambda>kw. getval dir f kw 0) keywords_ext0 = Inr a"
    and b: "emap (\<lambda>kw. getval dir f kw 1) keywords_ext1 = Inr b" and row: "row = a @ b"
    by (auto simp: row_of_def ebind_Inr_iff)
  have l0: "length keywords_ext0 = 11" by (simp add: keywords_ext0_def)
  have la: "length a = 11" using emap_Inr_length[OF a] by (simp add: keywords_ext0_def)
  have lb: "length b = 1" using emap_Inr_length[OF b] by (simp add: keywords_ext1_def)
  show "length row = 12" using la lb row by simp
  assume j: "j < 12"
  show "getval dir f ((keywords_ext0 @ keywords_ext1) ! j) (if j < 11 then 0 else 1) = Inr (row ! j)"
  proof (cases "j < 11")
    case True
    then have "j < length keywords_ext0" by (simp add: l0)
    from emap_Inr_nth[OF a this] True la row l0 show ?thesis
      by (simp add: nth_append)
  next
    case False
    with j have j11: "j = 11" by simp
    have "0 < length keywords_ext1" by (simp add: keywords_ext1_def)
    from emap_Inr_nth[OF b this] j11 la lb row l0 show ?thesis
      by (simp add: nth_append)
  qed
qed

lemma example_header_cell:
  "header_cell (\<lambda>dt v. Inr v) example_dir
     = Inr ([''ib1f19l6q_flt.fits'', ''ib1f19l7q_flt.fits''], example_table)"
  by code_simp

subsection \<open>The header summary table\<close>

text \<open>
  Claim C6. When the cell returns, the table has one row per exposure file matched by
  \<open>*fl?.fits\<close>, in the order of the sorted file names, and its columns are the
  eleven keywords of extension 0 followed by ORIENTAT of extension 1: cell \<open>j\<close> of row
  \<open>i\<close> is the value of keyword \<open>j\<close> in file \<open>i\<close>, converted to the column's type.
\<close>

theorem header_table_one_row_per_file:
  assumes "header_cell cast dir = Inr (flt_files, table)"
  shows "flt_files = sort (glob1 ''*fl?.fits'' (map fst dir))
     \<and> sorted flt_files
     \<and> colnames table = [''ROOTNAME'', ''ASN_ID'', ''TARGNAME'', ''DETECTOR'', ''FILTER'', ''EXPTIME'',
                          ''RA_TARG'', ''DEC_TARG'', ''POSTARG1'', ''POSTARG2'', ''DATE-OBS'', ''ORIENTAT'']
     \<and> length (tabrows table) = length flt_files
     \<and> (\<forall>i<length flt_files. length (tabrows table ! i) = 12
          \<and> (\<forall>j<12. \<exists>v.
                 getval dir (flt_files ! i) ((keywords_ext0 @ keywords_ext1) ! j) (if j < 11 then 0 else 1) = Inr v
                 \<and> cast (table_dtypes ! j) v = Inr (tabrows table ! i ! j)))"
proof -
  from assms obtain data where
    files: "flt_files = sort (glob1 ''*fl?.fits'' (map fst dir))"
    and loop: "header_loop dir flt_files [] = Inr data"
    and tab: "make_table cast (keywords_ext0 @ keywords_ext1) table_dtypes data = Inr table"
    by (auto simp: header_cell_def Let_def ebind_Inr_iff)
  from header_loop_eq[OF loop] have rows: "emap (row_of dir) flt_files = Inr data" by simp
  from tab obtain trows where
    cast: "emap (\<lambda>row. emap (\<lambda>(dt, v). cast dt v) (zip table_dtypes row)) data = Inr trows"
    and table: "table = \<lparr>colnames = keywords_ext0 @ keywords_ext1, tabrows = trows\<rparr>"
    by (auto simp: make_table_def ebind_Inr_iff)
  have len_data: "length data = length flt_files" by (rule emap_Inr_length[OF rows])
  have len_rows: "length trows = length data" by (rule emap_Inr_length[OF cast])
  have cols: "colnames table = [''ROOTNAME'', ''ASN_ID'', ''TARGNAME'', ''DETECTOR'', ''FILTER'', ''EXPTIME'',
                          ''RA_TARG'', ''DEC_TARG'', ''POSTARG1'', ''POSTARG2'', ''DATE-OBS'', ''ORIENTAT'']"
    by (simp add: table keywords_ext0_def keywords_ext1_def)
  have each: "length (tabrows table ! i) = 12
          \<and> (\<forall>j<12. \<exists>v.
                 getval dir (flt_files ! i) ((keywords_ext0 @ keywords_ext1) ! j) (if j < 11 then 0 else 1) = Inr v
                 \<and> cast (table_dtypes ! j) v = Inr (tabrows table ! i ! j))" if i: "i < length flt_files" for i
  proof -
    from emap_Inr_nth[OF rows i] have r: "row_of dir (flt_files ! i) = Inr (data ! i)" .
    from i len_data have "i < length data" by simp
    from emap_Inr_nth[OF cast this]
    have c: "emap (\<lambda>(dt, v). cast dt v) (zip table_dtypes (data ! i)) = Inr (trows ! i)" .
    have l12: "length (data ! i) = 12" by (rule row_of_nth(1)[OF r])
    have lz: "length (zip table_dtypes (data ! i)) = 12" using l12 by (simp add: table_dtypes_def)
    have lt: "length (trows ! i) = 12" using emap_Inr_length[OF c] lz by simp
    have "\<exists>v. getval dir (flt_files ! i) ((keywords_ext0 @ keywords_ext1) ! j) (if j < 11 then 0 else 1) = Inr v
                 \<and> cast (table_dtypes ! j) v = Inr (trows ! i ! j)" if j: "j < 12" for j
    proof -
      from j lz have "j < length (zip table_dtypes (data ! i))" by simp
      from emap_Inr_nth[OF c this] j l12 have "cast (table_dtypes ! j) (data ! i ! j) = Inr (trows ! i ! j)"
        by (simp add: table_dtypes_def)
      with row_of_nth(2)[OF r j] show ?thesis by blast
    qed
    with lt show ?thesis by (simp add: table)
  qed
  from files have "sorted flt_files" by simp
  with files cols len_data len_rows each show ?thesis by (simp add: table)
qed

theorem header_table_witness:
  "header_cell (\<lambda>dt v. Inr v) example_dir
     = Inr ([''ib1f19l6q_flt.fits'', ''ib1f19l7q_flt.fits''], example_table)
   \<and> length (tabrows example_table) = length [''ib1f19l6q_flt.fits'', ''ib1f19l7q_flt.fits'']
   \<and> sorted [''ib1f19l6q_flt.fits'', ''ib1f19l7q_flt.fits'']
   \<and> length (tabrows example_table ! 1) = 12"
proof -
  note t = header_table_one_row_per_file[OF example_header_cell]
  from t have "length (tabrows example_table) = length [''ib1f19l6q_flt.fits'', ''ib1f19l7q_flt.fits'']"
    by blast
  moreover from t have "sorted [''ib1f19l6q_flt.fits'', ''ib1f19l7q_flt.fits'']"
    by blast
  moreover from t have "length (tabrows example_table ! 1) = 12"
    by simp
  ultimately show ?thesis using example_header_cell by blast
qed

subsection \<open>The sweep over final\_pixfrac\<close>

text \<open>
  Claim C9. The sweep makes exactly ten calls of AstroDrizzle, one for each value
  0.1, 0.2, ..., 1.0 of \<open>final_pixfrac\<close>, and the ten output names
  \<open>f160w_0.1\<close>, ..., \<open>f160w_1.0\<close> are pairwise distinct, as are the names of the
  files written for them.
\<close>

theorem pixfrac_sweep_ten_distinct:
  "length (pixfrac_sweep flt_files selected_params) = 10
   \<and> map final_pixfrac (pixfrac_sweep flt_files selected_params)
       = map Some [1 / 10, 2 / 10, 3 / 10, 4 / 10, 5 / 10, 6 / 10, 7 / 10, 8 / 10, 9 / 10, 1]
   \<and> map output_name (pixfrac_sweep flt_files selected_params)
       = [''f160w_0.1'', ''f160w_0.2'', ''f160w_0.3'', ''f160w_0.4'', ''f160w_0.5'',
          ''f160w_0.6'', ''f160w_0.7'', ''f160w_0.8'', ''f160w_0.9'', ''f160w_1.0'']
   \<and> distinct (map output_name (pixfrac_sweep flt_files selected_params))
   \<and> distinct (map product_name (pixfrac_sweep flt_files selected_params))"
proof -
  let ?calls = "pixfrac_sweep flt_files selected_params"
  have len: "length ?calls = 10"
    by (simp add: pixfrac_sweep_def sweep_loop_eq pixfracs_eq)
  have fr: "map final_pixfrac ?calls
       = map Some [1 / 10, 2 / 10, 3 / 10, 4 / 10, 5 / 10, 6 / 10, 7 / 10, 8 / 10, 9 / 10, 1]"
    by (simp add: pixfrac_sweep_def sweep_loop_eq pixfracs_eq sweep_call_def Let_def)
  have names: "map output_name ?calls
       = [''f160w_0.1'', ''f160w_0.2'', ''f160w_0.3'', ''f160w_0.4'', ''f160w_0.5'',
          ''f160w_0.6'', ''f160w_0.7'', ''f160w_0.8'', ''f160w_0.9'', ''f160w_1.0'']"
    by (simp add: sweep_names format_pixfracs)
  have d1: "distinct (map output_name ?calls)"
    unfolding names by simp
  have "map product_name ?calls = map (\<lambda>s. s @ ''_drz.fits'') (map output_name ?calls)"
    by (simp add: product_name_def comp_def)
  then have d2: "distinct (map product_name ?calls)"
    unfolding names by simp
  from len fr names d1 d2 show ?thesis by blast
qed

subsection \<open>The alignment table and the detectors it knows\<close>

lemma upper_kws:
  "upcase ''RMS_RA'' = ''RMS_RA''" "upcase ''RMS_DEC'' = ''RMS_DEC''"
  "upcase ''WCSNAME'' = ''WCSNAME''" "upcase ''NMATCHES'' = ''NMATCHES''"
  "upcase ''DETECTOR'' = ''DETECTOR''" "upcase ''EXPTIME'' = ''EXPTIME''"
  by code_simp+

lemma contains_rms:
  "contains ''RMS'' ''RMS_RA''" "contains ''RMS'' ''RMS_DEC''"
  "\<not> contains ''RMS'' ''WCSNAME''" "\<not> contains ''RMS'' ''NMATCHES''"
  by code_simp+

lemma hdr_get_Inr_iff: "hdr_get h kw = Inr v \<longleftrightarrow> h (upcase kw) = Some v"
  by (simp add: hdr_get_def split: option.splits)

lemma hdr_get_Inl: "hdr_get h kw = Inl e \<Longrightarrow> e = KeyError (HStr kw)"
  by (simp add: hdr_get_def split: option.splits)

lemma np_around_Inr_iff: "np_around v d = Inr w \<longleftrightarrow> (\<exists>x. v = HNum x \<and> w = HNum (of_int (round_half_even (x * 10 ^ d)) / 10 ^ d))"
  by (cases v) (auto simp: np_around_def)

lemma ext1_loop_rms_numeric:
  assumes "ext1_loop hdr1 ext_1_kws cd = Inr cd'"
  shows "\<exists>ra rd. hdr1 ''RMS_RA'' = Some (HNum ra) \<and> hdr1 ''RMS_DEC'' = Some (HNum rd)"
  using assms
  by (auto simp: ext_1_kws_def ebind_Inr_iff contains_rms hdr_get_Inr_iff upper_kws np_around_Inr_iff)

lemma dom_det_scale: "dom det_scale = {''IR'', ''UVIS'', ''WFC''}"
  by (simp add: det_scale_def dom_map_of_conv_image_fst)

lemma det_scale_supported: "det_scale d \<noteq> None \<longleftrightarrow> d \<in> {''IR'', ''UVIS'', ''WFC''}"
  using dom_det_scale by (metis domIff)

lemma rms_to_pix_supported:
  assumes "hdr0 ''DETECTOR'' = Some (HStr d)" and "det_scale d = Some sc"
    and "hdr1 (upcase kw) = Some (HNum r)"
  shows "rms_to_pix hdr0 hdr1 kw = Inr (HNum (of_int (round_half_even (r / 1000 / sc * 10 ^ 2)) / 10 ^ 2))"
  using assms
  by (simp add: rms_to_pix_def hdr_get_def upper_kws py_truediv_def det_scale_get_def np_around_def)

lemma pix_loop_supported:
  assumes det: "hdr0 ''DETECTOR'' = Some (HStr d)" and d: "d \<in> {''IR'', ''UVIS'', ''WFC''}"
    and ra: "hdr1 ''RMS_RA'' = Some (HNum ra)" and rd: "hdr1 ''RMS_DEC'' = Some (HNum rd)"
  shows "\<exists>sc. det_scale d = Some sc \<and>
     pix_loop hdr0 hdr1 [''RMS_RA'', ''RMS_DEC''] cd =
       Inr (col_append (col_append cd ''RMS_RA_pix'' (HNum (of_int (round_half_even (ra / 1000 / sc * 10 ^ 2)) / 10 ^ 2)))
             ''RMS_DEC_pix'' (HNum (of_int (round_half_even (rd / 1000 / sc * 10 ^ 2)) / 10 ^ 2)))"
proof -
  from d obtain sc where sc: "det_scale d = Some sc" using det_scale_supported[of d] by auto
  have a: "rms_to_pix hdr0 hdr1 ''RMS_RA'' = Inr (HNum (of_int (round_half_even (ra / 1000 / sc * 10 ^ 2)) / 10 ^ 2))"
    using rms_to_pix_supported[of hdr0 d sc hdr1 "''RMS_RA''" ra] det sc ra by (simp add: upper_kws)
  have b: "rms_to_pix hdr0 hdr1 ''RMS_DEC'' = Inr (HNum (of_int (round_half_even (rd / 1000 / sc * 10 ^ 2)) / 10 ^ 2))"
    using rms_to_pix_supported[of hdr0 d sc hdr1 "''RMS_DEC''" rd] det sc rd by (simp add: upper_kws)
  show ?thesis using sc a b by simp
qed

lemma rms_to_pix_unsupported:
  assumes "hdr_get hdr0 ''DETECTOR'' = Inr v" and "v \<notin> {HStr ''IR'', HStr ''UVIS'', HStr ''WFC''}"
  shows "\<exists>e. rms_to_pix hdr0 hdr1 kw = Inl e"
proof -
  have "det_scale_get v = Inl (KeyError v)"
  proof (cases v)
    case (HStr d)
    with assms(2) have "d \<notin> {''IR'', ''UVIS'', ''WFC''}" by auto
    then have "det_scale d = None" using det_scale_supported[of d] by blast
    with HStr show ?thesis by (simp add: det_scale_get_def)
  next
    case (HNum x)
    then show ?thesis by (simp add: det_scale_get_def)
  qed
  then show ?thesis using assms(1)
    by (cases "hdr_get hdr1 kw"; cases "py_truediv (projr (hdr_get hdr1 kw)) 1000")
       (auto simp: rms_to_pix_def)
qed

lemma sum_cases_Inl: "(\<And>x. m = Inr x \<Longrightarrow> \<exists>e. f x = Inl e) \<Longrightarrow> \<exists>e. ebind m f = Inl e"
  by (cases m) auto

lemma wcs_file_unsupported:
  assumes "getval dir f ''DETECTOR'' 0 = Inr v" and "v \<notin> {HStr ''IR'', HStr ''UVIS'', HStr ''WFC''}"
  shows "\<exists>e. wcs_file dir f cd = Inl e"
proof -
  from assms(1) obtain hdr0 where h0: "getheader dir f 0 = Inr hdr0" and det: "hdr_get hdr0 ''DETECTOR'' = Inr v"
    by (auto simp: getval_def ebind_Inr_iff)
  have pix: "\<exists>e. pix_loop hdr0 hdr1 [''RMS_RA'', ''RMS_DEC''] c = Inl e" for hdr1 c
    using rms_to_pix_unsupported[OF det assms(2), of hdr1 "''RMS_RA''"] by auto
  show ?thesis unfolding wcs_file_def Let_def h0 ebind_simps
    by (intro sum_cases_Inl pix)
qed

lemma wcs_loop_unsupported:
  assumes "f \<in> set fs" and "getval dir f ''DETECTOR'' 0 = Inr v"
    and "v \<notin> {HStr ''IR'', HStr ''UVIS'', HStr ''WFC''}"
  shows "\<exists>e. wcs_loop dir fs cd = Inl e"
  using assms(1)
proof (induction fs arbitrary: cd)
  case Nil
  then show ?case by simp
next
  case (Cons g fs)
  show ?case
  proof (cases "wcs_file dir g cd")
    case (Inl e)
    then show ?thesis by simp
  next
    case (Inr cd')
    with wcs_file_unsupported[OF assms(2,3), of cd] have "g \<noteq> f" by auto
    with Cons.prems have "f \<in> set fs" by simp
    from Cons.IH[OF this, of cd'] Inr show ?thesis by simp
  qed
qed

lemma ext0_loop_error_kind: "ext0_loop h kws cd = Inl e \<Longrightarrow> is_KeyError e"
  by (induction kws arbitrary: cd) (auto simp: ebind_Inl_iff is_KeyError_def dest: hdr_get_Inl)

lemma np_around_Inl: "np_around v d = Inl e \<Longrightarrow> \<exists>s. v = HStr s"
  by (cases v) (auto simp: np_around_def)

lemma py_truediv_Inl: "py_truediv v c = Inl e \<Longrightarrow> \<exists>s. v = HStr s"
  by (cases v) (auto simp: py_truediv_def)

lemma py_truediv_Inr: "py_truediv v c = Inr w \<Longrightarrow> \<exists>x. v = HNum x \<and> w = HNum (x / c)"
  by (cases v) (auto simp: py_truediv_def)

lemma ext1_loop_error_kind:
  assumes "ext1_loop h kws cd = Inl e"
    and "\<And>kw s. kw \<in> set kws \<Longrightarrow> contains ''RMS'' kw \<Longrightarrow> h (upcase kw) \<noteq> Some (HStr s)"
  shows "is_KeyError e"
  using assms
proof (induction kws arbitrary: cd)
  case Nil
  then show ?case by simp
next
  case (Cons kw kws)
  let ?m = "if contains ''RMS'' kw then ebind (hdr_get h kw) (\<lambda>v. np_around v 1) else hdr_get h kw"
  show ?case
  proof (cases ?m)
    case (Inl e')
    with Cons.prems(1) have e: "e' = e" by simp
    show ?thesis
    proof (cases "hdr_get h kw")
      case (Inl e'')
      with \<open>?m = Inl e'\<close> e have "e'' = e" by (simp split: if_splits)
      with Inl show ?thesis by (auto simp: is_KeyError_def dest: hdr_get_Inl)
    next
      case (Inr v)
      with \<open>?m = Inl e'\<close> have c: "contains ''RMS'' kw" and "np_around v 1 = Inl e'"
        by (auto split: if_splits)
      then obtain s where "v = HStr s" by (auto dest: np_around_Inl)
      with Inr have "h (upcase kw) = Some (HStr s)" by (simp add: hdr_get_Inr_iff)
      with Cons.prems(2)[of kw s] c show ?thesis by simp
    qed
  next
    case (Inr v)
    with Cons.prems(1) have "ext1_loop h kws (col_append cd kw v) = Inl e" by simp
    from Cons.IH[OF this] Cons.prems(2) show ?thesis by simp
  qed
qed

lemma rms_to_pix_error_kind:
  assumes "rms_to_pix h0 h1 kw = Inl e" and "\<And>s. h1 (upcase kw) \<noteq> Some (HStr s)"
  shows "is_KeyError e"
proof (cases "hdr_get h1 kw")
  case (Inl e')
  with assms(1) have "e' = e" by (simp add: rms_to_pix_def)
  with Inl show ?thesis by (auto simp: is_KeyError_def dest: hdr_get_Inl)
next
  case (Inr v)
  with assms(2) obtain x where v: "v = HNum x" by (cases v) (auto simp: hdr_get_Inr_iff)
  show ?thesis
  proof (cases "hdr_get h0 ''DETECTOR''")
    case (Inl e')
    with assms(1) Inr v have "e' = e" by (simp add: rms_to_pix_def py_truediv_def)
    with Inl show ?thesis by (auto simp: is_KeyError_def dest: hdr_get_Inl)
  next
    case det: (Inr d)
    with assms(1) Inr v have "\<exists>k. e = KeyError k"
      by (auto simp: rms_to_pix_def py_truediv_def det_scale_get_def np_around_def ebind_Inl_iff
          split: hval.splits option.splits)
    then show ?thesis by (auto simp: is_KeyError_def)
  qed
qed

lemma pix_loop_error_kind:
  assumes "pix_loop h0 h1 kws cd = Inl e"
    and "\<And>kw s. kw \<in> set kws \<Longrightarrow> h1 (upcase kw) \<noteq> Some (HStr s)"
  shows "is_KeyError e"
  using assms
proof (induction kws arbitrary: cd)
  case Nil
  then show ?case by simp
next
  case (Cons kw kws)
  show ?case
  proof (cases "rms_to_pix h0 h1 kw")
    case (Inl e')
    with Cons.prems(1) have "e' = e" by simp
    with Inl rms_to_pix_error_kind[of h0 h1 kw e] Cons.prems(2)[of kw] show ?thesis by auto
  next
    case (Inr v)
    with Cons.prems(1) have "pix_loop h0 h1 kws (col_append cd (kw @ ''_pix'') v) = Inl e" by simp
    from Cons.IH[OF this] Cons.prems(2) show ?thesis by simp
  qed
qed

lemma rms_cards_numericD:
  assumes "rms_cards_numeric h"
  shows "h ''RMS_RA'' \<noteq> Some (HStr s)" "h ''RMS_DEC'' \<noteq> Some (HStr s)"
  using assms by (auto simp: rms_cards_numeric_def)

lemma wcs_file_error_kind:
  assumes ok: "fits_ok dir f" and err: "wcs_file dir f cd = Inl e"
  shows "is_KeyError e"
proof -
  from ok obtain fts where fl: "map_of dir f = Some fts" and len: "2 \<le> length fts"
    and num: "rms_cards_numeric (hdr (fts ! 1))"
    by (auto simp: fits_ok_def split: option.splits)
  let ?h0 = "hdr (fts ! 0)" and ?h1 = "hdr (fts ! 1)"
  have h0: "getheader dir f 0 = Inr ?h0" and h1: "getheader dir f 1 = Inr ?h1"
    using fl len by (auto simp: getheader_def fits_open_def hdu_at_def)
  have rms: "?h1 (upcase kw) \<noteq> Some (HStr s)" if "kw \<in> set ext_1_kws" "contains ''RMS'' kw" for kw s
    using that rms_cards_numericD[OF num] by (auto simp: ext_1_kws_def upper_kws contains_rms)
  have rms2: "?h1 (upcase kw) \<noteq> Some (HStr s)" if "kw \<in> set [''RMS_RA'', ''RMS_DEC'']" for kw s
    using that rms_cards_numericD[OF num] by (auto simp: upper_kws)
  let ?cd1 = "col_append cd ''filename'' (HStr f)"
  show ?thesis
  proof (cases "ext0_loop ?h0 ext_0_kws ?cd1")
    case (Inl e')
    with err h0 h1 have "e' = e" by (simp add: wcs_file_def Let_def)
    with Inl show ?thesis by (auto dest: ext0_loop_error_kind)
  next
    case c2: (Inr cd2)
    show ?thesis
    proof (cases "ext1_loop ?h1 ext_1_kws cd2")
      case (Inl e')
      with err h0 h1 c2 have "e' = e" by (simp add: wcs_file_def Let_def)
      with Inl rms show ?thesis by (auto dest: ext1_loop_error_kind)
    next
      case (Inr cd3)
      with err h0 h1 c2 have "pix_loop ?h0 ?h1 [''RMS_RA'', ''RMS_DEC''] cd3 = Inl e"
        by (simp add: wcs_file_def Let_def)
      with rms2 show ?thesis by (rule pix_loop_error_kind[rotated])
    qed
  qed
qed

lemma wcs_loop_error_kind:
  assumes "wcs_loop dir fs cd = Inl e" and "\<And>f. f \<in> set fs \<Longrightarrow> fits_ok dir f"
  shows "is_KeyError e"
  using assms
proof (induction fs arbitrary: cd)
  case Nil
  then show ?case by simp
next
  case (Cons g fs)
  show ?case
  proof (cases "wcs_file dir g cd")
    case (Inl e')
    with Cons.prems(1) have "e' = e" by simp
    with Inl Cons.prems(2)[of g] show ?thesis by (auto dest: wcs_file_error_kind)
  next
    case (Inr cd')
    with Cons.prems(1) have "wcs_loop dir fs cd' = Inl e" by simp
    from Cons.IH[OF this] Cons.prems(2) show ?thesis by simp
  qed
qed

lemma example_wcs_cell:
  "wcs_cell example_dir [''ib1f19l6q_flt.fits'', ''ib1f19l7q_flt.fits''] = Inr example_wcstable"
  by code_simp

lemma example_wcs_cell_hrc:
  "wcs_cell example_dir_hrc [''j8c0d1011_flt.fits''] = Inl (KeyError (HStr ''HRC''))"
  by code_simp



subsection \<open>get\_vals\_from\_mdriztab\<close>

lemma requested_loop_Inr:
  "requested_loop md kws req = Inr r \<Longrightarrow>
     set kws \<subseteq> dom md \<and> dom r = dom req \<union> set kws
     \<and> (\<forall>k \<in> set kws. r k = md k) \<and> (\<forall>k. k \<notin> set kws \<longrightarrow> r k = req k)"
proof (induction kws arbitrary: req)
  case Nil
  then show ?case by simp
next
  case (Cons k kws)
  from Cons.prems obtain v where v: "md k = Some v"
    and rest: "requested_loop md kws (req(k \<mapsto> v)) = Inr r"
    by (auto split: option.splits)
  note ih = Cons.IH[OF rest]
  have "r k = md k"
  proof (cases "k \<in> set kws")
    case True
    with ih show ?thesis by blast
  next
    case False
    with ih have "r k = (req(k \<mapsto> v)) k" by blast
    with v show ?thesis by simp
  qed
  with ih v show ?case by auto
qed

lemma requested_loop_total:
  "set kws \<subseteq> dom md \<Longrightarrow> \<exists>r. requested_loop md kws req = Inr r"
  by (induction kws arbitrary: req) (auto split: option.splits)

lemma requested_loop_KeyError:
  "\<not> set kws \<subseteq> dom md \<Longrightarrow> \<exists>k. k \<in> set kws \<and> k \<notin> dom md \<and> requested_loop md kws req = Inl (KeyError (HStr k))"
proof (induction kws arbitrary: req)
  case Nil
  then show ?case by simp
next
  case (Cons k kws)
  show ?case
  proof (cases "md k")
    case None
    then show ?thesis by auto
  next
    case (Some v)
    with Cons.prems have "\<not> set kws \<subseteq> dom md" by auto
    from Cons.IH[OF this, of "req(k \<mapsto> v)"] obtain k' where
      "k' \<in> set kws" "k' \<notin> dom md" "requested_loop md kws (req(k \<mapsto> v)) = Inl (KeyError (HStr k'))"
      by blast
    with Some have "k' \<in> set (k # kws) \<and> k' \<notin> dom md \<and> requested_loop md (k # kws) req = Inl (KeyError (HStr k'))"
      by simp
    then show ?thesis by blast
  qed
qed

text \<open>
  Claim C5, as stated, for any keyword list: it fails when a requested keyword is no key of
  the dictionary read from the table. Here \<open>output\<close> is requested, the indexing
  \<open>mdriz_dict[k]\<close> raises KeyError and nothing is returned.
\<close>

theorem get_vals_from_mdriztab_missing_key:
  "get_vals_from_mdriztab (\<lambda>imgs. Inr example_mdriz) [''ib1f19l6q_flt.fits''] (Some [''final_bits'', ''output''])
     = Inl (KeyError (HStr ''output''))"
proof -
  have a: "example_mdriz ''final_bits'' = Some (HNum 11)" by (simp add: example_mdriz_def)
  have b: "example_mdriz ''output'' = None" by (simp add: example_mdriz_def)
  have "requested_loop example_mdriz [''final_bits'', ''output''] m = Inl (KeyError (HStr ''output''))" for m
    by (simp add: a b)
  then show ?thesis unfolding get_vals_from_mdriztab_def by simp
qed

text \<open>
  Claim C5, amended. Let the table be read as \<open>mdriz_dict\<close>, and let \<open>kw_list\<close> be
  the requested list, the five default keywords when none is given. If every element of
  \<open>kw_list\<close> is a key of \<open>mdriz_dict\<close>, the function returns a mapping whose keys are
  exactly the elements of \<open>kw_list\<close> and whose value at each key is the value of
  \<open>mdriz_dict\<close> there. Otherwise it raises KeyError for a requested keyword that the
  dictionary lacks.
\<close>

theorem get_vals_from_mdriztab_selects:
  assumes "getMdriztabPars input_images = Inr mdriz_dict"
  shows "(set (case kw_list of None \<Rightarrow> default_kw_list | Some l \<Rightarrow> l) \<subseteq> dom mdriz_dict \<longrightarrow>
      (\<exists>requested_params.
        get_vals_from_mdriztab getMdriztabPars input_images kw_list = Inr requested_params
        \<and> dom requested_params = set (case kw_list of None \<Rightarrow> default_kw_list | Some l \<Rightarrow> l)
        \<and> (\<forall>k \<in> set (case kw_list of None \<Rightarrow> default_kw_list | Some l \<Rightarrow> l).
              requested_params k = mdriz_dict k)))
    \<and> (\<not> set (case kw_list of None \<Rightarrow> default_kw_list | Some l \<Rightarrow> l) \<subseteq> dom mdriz_dict \<longrightarrow>
      (\<exists>k. k \<in> set (case kw_list of None \<Rightarrow> default_kw_list | Some l \<Rightarrow> l) \<and> k \<notin> dom mdriz_dict
        \<and> get_vals_from_mdriztab getMdriztabPars input_images kw_list = Inl (KeyError (HStr k))))"
proof (intro conjI impI)
  let ?kws = "case kw_list of None \<Rightarrow> default_kw_list | Some l \<Rightarrow> l"
  have unfold: "get_vals_from_mdriztab getMdriztabPars input_images kw_list
      = requested_loop mdriz_dict ?kws Map.empty"
    using assms by (simp add: get_vals_from_mdriztab_def)
  {
    assume sub: "set ?kws \<subseteq> dom mdriz_dict"
    from requested_loop_total[OF sub] obtain r where r: "requested_loop mdriz_dict ?kws Map.empty = Inr r"
      by blast
    from requested_loop_Inr[OF r] have "dom r = set ?kws" "\<forall>k \<in> set ?kws. r k = mdriz_dict k"
      by auto
    with r unfold show "\<exists>requested_params.
        get_vals_from_mdriztab getMdriztabPars input_images kw_list = Inr requested_params
        \<and> dom requested_params = set ?kws \<and> (\<forall>k \<in> set ?kws. requested_params k = mdriz_dict k)"
      by auto
  }
  {
    assume nsub: "\<not> set ?kws \<subseteq> dom mdriz_dict"
    from requested_loop_KeyError[OF nsub, of Map.empty] unfold
    show "\<exists>k. k \<in> set ?kws \<and> k \<notin> dom mdriz_dict
        \<and> get_vals_from_mdriztab getMdriztabPars input_images kw_list = Inl (KeyError (HStr k))"
      by auto
  }
qed

theorem get_vals_from_mdriztab_witness:
  "(\<exists>requested_params.
      get_vals_from_mdriztab (\<lambda>imgs. Inr example_mdriz) [''ib1f19l6q_flt.fits''] None = Inr requested_params
      \<and> dom requested_params = set default_kw_list
      \<and> requested_params ''final_bits'' = Some (HNum 11)
      \<and> requested_params ''final_pixfrac'' = None)
   \<and> (\<exists>k. get_vals_from_mdriztab (\<lambda>imgs. Inr example_mdriz) [''ib1f19l6q_flt.fits'']
            (Some [''final_bits'', ''output'']) = Inl (KeyError (HStr k)))"
proof -
  have sub: "set (case None of None \<Rightarrow> default_kw_list | Some l \<Rightarrow> l) \<subseteq> dom example_mdriz"
    by (simp add: default_kw_list_def example_mdriz_def)
  have nsub: "\<not> set (case Some [''final_bits'', ''output''] of None \<Rightarrow> default_kw_list | Some l \<Rightarrow> l)
      \<subseteq> dom example_mdriz"
    by (simp add: example_mdriz_def dom_map_of_conv_image_fst)
  note t1 = get_vals_from_mdriztab_selects[of "\<lambda>imgs. Inr example_mdriz" "[''ib1f19l6q_flt.fits'']"
      example_mdriz None, OF refl, THEN conjunct1, THEN mp, OF sub]
  note t2 = get_vals_from_mdriztab_selects[of "\<lambda>imgs. Inr example_mdriz" "[''ib1f19l6q_flt.fits'']"
      example_mdriz "Some [''final_bits'', ''output'']", OF refl, THEN conjunct2, THEN mp, OF nsub]
  from t1 obtain r where r: "get_vals_from_mdriztab (\<lambda>imgs. Inr example_mdriz) [''ib1f19l6q_flt.fits''] None = Inr r"
    and d: "dom r = set default_kw_list" and v: "\<forall>k \<in> set default_kw_list. r k = example_mdriz k"
    by auto
  from v have "r ''final_bits'' = Some (HNum 11)" by (simp add: default_kw_list_def example_mdriz_def)
  moreover have "r ''final_pixfrac'' = None"
  proof -
    have "''final_pixfrac'' \<notin> set default_kw_list" by (simp add: default_kw_list_def)
    with d have "''final_pixfrac'' \<notin> dom r" by blast
    then show ?thesis by blast
  qed
  ultimately have a: "\<exists>requested_params.
      get_vals_from_mdriztab (\<lambda>imgs. Inr example_mdriz) [''ib1f19l6q_flt.fits''] None = Inr requested_params
      \<and> dom requested_params = set default_kw_list
      \<and> requested_params ''final_bits'' = Some (HNum 11)
      \<and> requested_params ''final_pixfrac'' = None"
    using r d by blast
  from t2 have b: "\<exists>k. get_vals_from_mdriztab (\<lambda>imgs. Inr example_mdriz) [''ib1f19l6q_flt.fits'']
            (Some [''final_bits'', ''output'']) = Inl (KeyError (HStr k))"
    by blast
  from a b show ?thesis by blast
qed

subsection \<open>The inspection cells are functions of the headers\<close>

lemma map_of_header_view: "map_of (header_view dir) f = map_option (map hdr) (map_of dir f)"
  by (induction dir) (auto simp: header_view_def)

lemma getheader_view:
  "getheader dir f ext =
     (case map_of (header_view dir) f of
        None \<Rightarrow> Inl (FileNotFoundError f)
      | Some hs \<Rightarrow> if ext < length hs then Inr (hs ! ext) else Inl IndexError)"
  by (cases "map_of dir f") (simp_all add: map_of_header_view getheader_def fits_open_def hdu_at_def)

lemma getheader_cong: "header_view dir = header_view dir' \<Longrightarrow> getheader dir = getheader dir'"
  by (intro ext) (simp add: getheader_view)

lemma names_header_view: "map fst (header_view dir) = map fst dir"
  by (induction dir) (auto simp: header_view_def)

lemma names_cong: "header_view dir = header_view dir' \<Longrightarrow> map fst dir = map fst dir'"
  by (metis names_header_view)

lemma getval_cong: "getheader dir = getheader dir' \<Longrightarrow> getval dir = getval dir'"
  by (intro ext) (simp add: getval_def)

lemma append_vals_cong:
  "getheader dir = getheader dir' \<Longrightarrow> append_vals dir f ext kws pd = append_vals dir' f ext kws pd"
proof (induction kws arbitrary: pd)
  case Nil
  then show ?case by simp
next
  case (Cons kw kws)
  show ?case by (simp add: getval_cong[OF Cons.prems] Cons.IH[OF Cons.prems])
qed

lemma header_loop_cong:
  "getheader dir = getheader dir' \<Longrightarrow> header_loop dir fs data = header_loop dir' fs data"
proof (induction fs arbitrary: data)
  case Nil
  then show ?case by simp
next
  case (Cons f fs)
  show ?case by (simp add: append_vals_cong[OF Cons.prems] Cons.IH[OF Cons.prems])
qed

lemma wcs_file_cong: "getheader dir = getheader dir' \<Longrightarrow> wcs_file dir f cd = wcs_file dir' f cd"
  by (simp add: wcs_file_def)

lemma wcs_loop_cong: "getheader dir = getheader dir' \<Longrightarrow> wcs_loop dir fs cd = wcs_loop dir' fs cd"
proof (induction fs arbitrary: cd)
  case Nil
  then show ?case by simp
next
  case (Cons f fs)
  have "wcs_loop dir fs = wcs_loop dir' fs" by (intro ext) (rule Cons.IH[OF Cons.prems])
  then show ?case by (simp add: wcs_file_cong[OF Cons.prems])
qed

lemma run_header_cell_table:
  "map_sum id k_table (run_header_cell cast dir k)
     = ebind (header_loop dir (sort (glob1 ''*fl?.fits'' (map fst dir))) [])
         (\<lambda>data. ebind (make_table cast (keywords_ext0 @ keywords_ext1) table_dtypes data)
            (\<lambda>t. Inr (Some t)))"
proof (cases "header_loop dir (sort (glob1 ''*fl?.fits'' (map fst dir))) []")
  case (Inl e)
  then show ?thesis by (simp add: run_header_cell_def Let_def)
next
  case (Inr data)
  then show ?thesis
    by (cases "make_table cast (keywords_ext0 @ keywords_ext1) table_dtypes data")
       (simp_all add: run_header_cell_def Let_def)
qed

lemma run_wcs_cell_table:
  "map_sum id k_wcstable (run_wcs_cell dir k)
     = ebind (wcs_loop dir (k_flt_files k) []) (\<lambda>cd. ebind (table_of_columns cd) (\<lambda>t. Inr (Some t)))"
proof (cases "wcs_loop dir (k_flt_files k) []")
  case (Inl e)
  then show ?thesis by (simp add: run_wcs_cell_def Let_def)
next
  case (Inr cd)
  then show ?thesis
    by (cases "table_of_columns cd") (simp_all add: run_wcs_cell_def Let_def)
qed

lemma run_header_cell_idem:
  assumes "run_header_cell cast dir k = Inr k1"
  shows "run_header_cell cast dir k1 = Inr k1"
proof -
  from assms obtain data t where
    d: "header_loop dir (sort (glob1 ''*fl?.fits'' (map fst dir))) [] = Inr data"
    and t: "make_table cast (keywords_ext0 @ keywords_ext1) table_dtypes data = Inr t"
    and k1: "k1 = k\<lparr>k_flt_files := sort (glob1 ''*fl?.fits'' (map fst dir)), k_data := data, k_table := Some t\<rparr>"
    by (auto simp: run_header_cell_def Let_def ebind_Inr_iff)
  show ?thesis by (simp add: run_header_cell_def Let_def d t k1)
qed

lemma run_wcs_cell_idem:
  assumes "run_wcs_cell dir k = Inr k2"
  shows "run_wcs_cell dir k2 = Inr k2"
proof -
  from assms obtain cd t where
    d: "wcs_loop dir (k_flt_files k) [] = Inr cd"
    and t: "table_of_columns cd = Inr t"
    and k2: "k2 = k\<lparr>k_col_dict := cd, k_wcstable := Some t\<rparr>"
    by (auto simp: run_wcs_cell_def Let_def ebind_Inr_iff)
  show ?thesis by (simp add: run_wcs_cell_def Let_def d t k2)
qed

lemma header_view_blank: "header_view example_dir_blank = header_view example_dir"
  by (simp add: header_view_def example_dir_blank_def example_dir_def)

text \<open>
  Claim C7. The two inspection cells are deterministic and stateless. Their tables are
  functions of the names and the header contents of the files alone: two directories
  that agree on these give the same table (or the same error), whatever the pixel data
  and whatever the kernel held before, given for the alignment cell the same
  \<open>flt_files\<close>, the list the header cell assigned. A second run over unchanged files
  leaves the kernel, tables included, exactly as the first run left it.
\<close>

theorem inspection_cells_deterministic:
  assumes "header_view dir = header_view dir'"
  shows "map_sum id k_table (run_header_cell cast dir k) = map_sum id k_table (run_header_cell cast dir' k')
    \<and> (k_flt_files k = k_flt_files k' \<longrightarrow>
         map_sum id k_wcstable (run_wcs_cell dir k) = map_sum id k_wcstable (run_wcs_cell dir' k'))
    \<and> (\<forall>k1. run_header_cell cast dir k = Inr k1 \<longrightarrow> run_header_cell cast dir' k1 = Inr k1)
    \<and> (\<forall>k2. run_wcs_cell dir k = Inr k2 \<longrightarrow> run_wcs_cell dir' k2 = Inr k2)"
proof -
  have g: "getheader dir = getheader dir'" by (rule getheader_cong[OF assms])
  have n: "map fst dir = map fst dir'" by (rule names_cong[OF assms])
  have hc: "run_header_cell cast dir = run_header_cell cast dir'"
    by (intro ext) (simp add: run_header_cell_def n header_loop_cong[OF g])
  have wc: "run_wcs_cell dir kk = run_wcs_cell dir' kk" for kk :: "'c kernel"
    by (simp add: run_wcs_cell_def wcs_loop_cong[OF g])
  have 1: "map_sum id k_table (run_header_cell cast dir k) = map_sum id k_table (run_header_cell cast dir' k')"
    by (simp add: run_header_cell_table n header_loop_cong[OF g])
  have 2: "map_sum id k_wcstable (run_wcs_cell dir k) = map_sum id k_wcstable (run_wcs_cell dir' k')"
    if "k_flt_files k = k_flt_files k'"
    using that by (simp add: run_wcs_cell_table wcs_loop_cong[OF g])
  have 3: "run_header_cell cast dir' k1 = Inr k1" if "run_header_cell cast dir k = Inr k1" for k1
    using run_header_cell_idem[OF that] hc by simp
  have 4: "run_wcs_cell dir' k2 = Inr k2" if "run_wcs_cell dir k = Inr k2" for k2
    using run_wcs_cell_idem[OF that] wc[of k2] by simp
  from 1 2 3 4 show ?thesis by blast
qed

theorem inspection_cells_witness:
  "map_sum id k_table (run_header_cell (\<lambda>dt v. Inr v) example_dir kernel_fresh)
     = map_sum id k_table (run_header_cell (\<lambda>dt v. Inr v) example_dir_blank kernel_used)
   \<and> map_sum id k_table (run_header_cell (\<lambda>dt v. Inr v) example_dir kernel_fresh) = Inr (Some example_table)
   \<and> map_sum id k_wcstable (run_wcs_cell example_dir kernel_fresh)
     = map_sum id k_wcstable (run_wcs_cell example_dir_blank kernel_used)
   \<and> map_sum id k_wcstable (run_wcs_cell example_dir kernel_fresh) = Inr (Some example_wcstable)"
proof -
  note t = inspection_cells_deterministic[OF header_view_blank[symmetric],
      of "\<lambda>dt v. Inr v" kernel_fresh kernel_used]
  have f: "k_flt_files kernel_fresh = k_flt_files kernel_used"
    by (simp add: kernel_fresh_def kernel_used_def)
  from t have a: "map_sum id k_table (run_header_cell (\<lambda>dt v. Inr v) example_dir kernel_fresh)
     = map_sum id k_table (run_header_cell (\<lambda>dt v. Inr v) example_dir_blank kernel_used)"
    by blast
  from t f have b: "map_sum id k_wcstable (run_wcs_cell example_dir kernel_fresh)
     = map_sum id k_wcstable (run_wcs_cell example_dir_blank kernel_used)"
    by blast
  have c: "map_sum id k_table (run_header_cell (\<lambda>dt v. Inr v) example_dir kernel_fresh) = Inr (Some example_table)"
    by code_simp
  have d: "map_sum id k_wcstable (run_wcs_cell example_dir kernel_fresh) = Inr (Some example_wcstable)"
    by code_simp
  from a b c d show ?thesis by blast
qed

subsection \<open>The evaluation cell\<close>

lemma upper_eval_kws: "upcase ''D001PIXF'' = ''D001PIXF''"
  by code_simp

lemma subregion_Inr: "subregion w yl xl = Inr r \<longleftrightarrow>
   (\<exists>a. w = Some a \<and> r = map (py_slice (fst xl) (snd xl)) (py_slice (fst yl) (snd yl) a))"
  by (cases w) (auto simp: subregion_def)

lemma eval_body_Inr:
  assumes "eval_body L fs dir xl yl i im s = Inr s'"
  shows "\<exists>v x. sweep_entry L fs dir xl yl im = Some (v, x)
      \<and> std_med s' = (std_med s)[i := v] \<and> fraclist s' = (fraclist s)[i := x]"
proof -
  from assms obtain f where f: "map_of dir im = Some f"
    by (auto simp: eval_body_def ebind_Inr_iff fits_open_def split: option.splits)
  from assms f have len: "2 < length f"
    by (auto simp: eval_body_def ebind_Inr_iff fits_open_def hdu_at_def split: if_splits)
  from assms f len obtain s1 where
    rest: "ebind (subregion (pixels (f ! 2)) yl xl) (\<lambda>region1.
       ebind (subregion (pixels (f ! 2)) yl xl) (\<lambda>region2.
       ebind (hdr_get (hdr (f ! 0)) ''D001PIXF'') (\<lambda>pixf.
       ebind (to_float fs pixf) (\<lambda>x.
       Inr (s1\<lparr>std_med := (std_med s1)[i := np_divide L (np_std L region1) (np_median L region2)],
             fraclist := (fraclist s1)[i := x]\<rparr>))))) = Inr s'"
    and s1: "std_med s1 = std_med s" "fraclist s1 = fraclist s"
    by (auto simp: eval_body_def ebind_Inr_iff fits_open_def hdu_at_def Let_def split: if_splits)
  from rest obtain wht pixf x where wht: "pixels (f ! 2) = Some wht"
    and pixf: "hdr (f ! 0) ''D001PIXF'' = Some pixf" and x: "to_float fs pixf = Inr x"
    and s': "s' = s1\<lparr>std_med := (std_med s1)[i := weight_stat L xl yl wht], fraclist := (fraclist s1)[i := x]\<rparr>"
    by (auto simp: ebind_Inr_iff subregion_Inr hdr_get_Inr_iff upper_eval_kws weight_stat_def Let_def)
  from f len wht pixf x have "sweep_entry L fs dir xl yl im = Some (weight_stat L xl yl wht, x)"
    by (simp add: sweep_entry_def)
  with s' s1 show ?thesis by simp
qed

lemma eval_loop_Inr:
  assumes "eval_loop L fs dir xl yl ps s = Inr s'" and "distinct (map fst ps)"
  shows "length (std_med s') = length (std_med s) \<and> length (fraclist s') = length (fraclist s)
    \<and> (\<forall>(i, im) \<in> set ps. i < length (std_med s) \<longrightarrow> i < length (fraclist s) \<longrightarrow>
          sweep_entry L fs dir xl yl im = Some (std_med s' ! i, fraclist s' ! i))
    \<and> (\<forall>j. j \<notin> fst ` set ps \<longrightarrow> std_med s' ! j = std_med s ! j \<and> fraclist s' ! j = fraclist s ! j)"
  using assms
proof (induction ps arbitrary: s)
  case Nil
  then show ?case by simp
next
  case (Cons p ps)
  obtain i im where p: "p = (i, im)" by (cases p)
  from Cons.prems p obtain s1 where b: "eval_body L fs dir xl yl i im s = Inr s1"
    and l: "eval_loop L fs dir xl yl ps s1 = Inr s'"
    by (auto simp: ebind_Inr_iff)
  from eval_body_Inr[OF b] obtain v x where e: "sweep_entry L fs dir xl yl im = Some (v, x)"
    and sm: "std_med s1 = (std_med s)[i := v]" and fr: "fraclist s1 = (fraclist s)[i := x]"
    by blast
  from Cons.prems p have d: "distinct (map fst ps)" and ni: "i \<notin> fst ` set ps" by auto
  note ih = Cons.IH[OF l d]
  have len: "length (std_med s') = length (std_med s)" "length (fraclist s') = length (fraclist s)"
    using ih sm fr by simp_all
  have here: "sweep_entry L fs dir xl yl im = Some (std_med s' ! i, fraclist s' ! i)"
    if "i < length (std_med s)" "i < length (fraclist s)"
  proof -
    from ih ni have "std_med s' ! i = std_med s1 ! i" "fraclist s' ! i = fraclist s1 ! i" by blast+
    with sm fr that e show ?thesis by simp
  qed
  have later: "sweep_entry L fs dir xl yl im' = Some (std_med s' ! i', fraclist s' ! i')"
    if "(i', im') \<in> set ps" "i' < length (std_med s)" "i' < length (fraclist s)" for i' im'
    using ih that sm fr by auto
  have frame: "std_med s' ! j = std_med s ! j \<and> fraclist s' ! j = fraclist s ! j"
    if "j \<notin> fst ` set (p # ps)" for j
  proof -
    from that p have "j \<noteq> i" "j \<notin> fst ` set ps" by auto
    with ih sm fr show ?thesis by simp
  qed
  from len here later frame p show ?case by auto
qed

lemma swept_eval_cell:
  "eval_cell (L :: (rat, 'v :: equal) numpy_lib) fs j1 j2 swept_dir (0, 2) (1, 3)
   = Inr \<lparr>std_med = replicate 9 (np_divide L (np_std L example_region) (np_median L example_region)),
          fraclist = map Fin [1 / 10, 2 / 10, 3 / 10, 4 / 10, 5 / 10, 6 / 10, 7 / 10, 8 / 10, 9 / 10],
          target = Some (HStr ''NGC-3370''), scale = Some (HNum (65 / 1000)), nimg = Some (HNum 2)\<rparr>"
  by code_simp

lemma example_region_std: "pop_std example_region = Some 1"
  by (simp add: pop_std_def example_region_def Let_def)

lemma example_region_median: "median example_region = Some 2"
  by (simp add: median_def example_region_def Let_def)

lemma swept_eval_cell_real:
  "eval_cell numpy_real (\<lambda>s. None) (\<lambda>i. None) (\<lambda>i. NaN) swept_dir (0, 2) (1, 3) = Inr example_eval_vars"
  by (simp add: swept_eval_cell numpy_real_def example_region_std example_region_median
      float_div_def example_eval_vars_def)

text \<open>
  Claim C4. For every weight image the cell evaluates, the statistic stored at its index
  is the standard deviation of a sub-region of extension 2 divided by the median of the
  same sub-region, and the sub-region is cut with the same bounds \<open>ylims\<close>, \<open>xlims\<close>
  for every image; the entry of \<open>fraclist\<close> at that index is the D001PIXF card of the
  same file.
\<close>

theorem eval_cell_statistic:
  assumes "eval_cell L float_of_str junk1 junk2 dir xlims ylims = Inr res"
  shows "length (std_med res) = length (glob1 ''f160w_0.[0-9]*drz.fits'' (map fst dir))
    \<and> length (fraclist res) = length (glob1 ''f160w_0.[0-9]*drz.fits'' (map fst dir))
    \<and> (\<forall>i < length (glob1 ''f160w_0.[0-9]*drz.fits'' (map fst dir)).
          \<exists>f wht pixf. map_of dir (glob1 ''f160w_0.[0-9]*drz.fits'' (map fst dir) ! i) = Some f
            \<and> 2 < length f \<and> pixels (f ! 2) = Some wht
            \<and> std_med res ! i
                = np_divide L
                    (np_std L (map (py_slice (fst xlims) (snd xlims)) (py_slice (fst ylims) (snd ylims) wht)))
                    (np_median L (map (py_slice (fst xlims) (snd xlims)) (py_slice (fst ylims) (snd ylims) wht)))
            \<and> hdr (f ! 0) ''D001PIXF'' = Some pixf
            \<and> to_float float_of_str pixf = Inr (fraclist res ! i))"
proof -
  let ?w = "glob1 ''f160w_0.[0-9]*drz.fits'' (map fst dir)"
  let ?s = "\<lparr>std_med = np_empty junk1 (length ?w), fraclist = np_empty junk2 (length ?w),
               target = None, scale = None, nimg = None\<rparr>"
  from assms have l: "eval_loop L float_of_str dir xlims ylims (zip [0 ..< length ?w] ?w) ?s = Inr res"
    by (simp add: eval_cell_def Let_def)
  have d: "distinct (map fst (zip [0 ..< length ?w] ?w))" by simp
  note r = eval_loop_Inr[OF l d]
  have len: "length (std_med res) = length ?w" "length (fraclist res) = length ?w"
    using r by (simp_all add: np_empty_def)
  have each: "\<exists>f wht pixf. map_of dir (?w ! i) = Some f \<and> 2 < length f \<and> pixels (f ! 2) = Some wht
            \<and> std_med res ! i
                = np_divide L
                    (np_std L (map (py_slice (fst xlims) (snd xlims)) (py_slice (fst ylims) (snd ylims) wht)))
                    (np_median L (map (py_slice (fst xlims) (snd xlims)) (py_slice (fst ylims) (snd ylims) wht)))
            \<and> hdr (f ! 0) ''D001PIXF'' = Some pixf
            \<and> to_float float_of_str pixf = Inr (fraclist res ! i)"
    if i: "i < length ?w" for i
  proof -
    from i have "(i, ?w ! i) \<in> set (zip [0 ..< length ?w] ?w)"
      by (auto simp: set_zip intro!: exI[of _ i])
    with r i have "sweep_entry L float_of_str dir xlims ylims (?w ! i) = Some (std_med res ! i, fraclist res ! i)"
      by (auto simp: np_empty_def)
    then show ?thesis
      by (auto simp: sweep_entry_def weight_stat_def Let_def split: option.splits if_splits sum.splits)
  qed
  from len each show ?thesis by blast
qed

theorem eval_cell_statistic_witness:
  "eval_cell numpy_real (\<lambda>s. None) (\<lambda>i. None) (\<lambda>i. NaN) swept_dir (0, 2) (1, 3) = Inr example_eval_vars
   \<and> length (std_med example_eval_vars) = length (glob1 ''f160w_0.[0-9]*drz.fits'' (map fst swept_dir))
   \<and> std_med example_eval_vars ! 8 = float_div (pop_std example_region) (median example_region)
   \<and> fraclist example_eval_vars ! 8 = Fin (9 / 10)"
proof -
  note t = eval_cell_statistic[OF swept_eval_cell_real]
  from t have "length (std_med example_eval_vars) = length (glob1 ''f160w_0.[0-9]*drz.fits'' (map fst swept_dir))"
    by blast
  moreover have "std_med example_eval_vars ! 8 = float_div (pop_std example_region) (median example_region)"
    by (simp add: example_eval_vars_def example_region_std example_region_median float_div_def)
  moreover have "fraclist example_eval_vars ! 8 = Fin (9 / 10)"
    by (simp add: example_eval_vars_def)
  ultimately show ?thesis using swept_eval_cell_real by blast
qed

text \<open>
  Claim C1 says the table of the evaluation cell has one entry for each of the ten values
  of the sweep. On the directory the sweep leaves behind it has nine: the pattern
  \<open>f160w_0.[0-9]*drz.fits\<close> begins with \<open>f160w_0.\<close>, so the product of
  \<open>final_pixfrac = 1.0\<close>, \<open>f160w_1.0_drz.fits\<close>, is in the directory and not in
  \<open>whtlist\<close>, and no entry of \<open>fraclist\<close> is 1.
\<close>

theorem sweep_table_misses_pixfrac_one:
  "''f160w_1.0_drz.fits'' \<in> set (map product_name (pixfrac_sweep flt_files selected_params))
   \<and> ''f160w_1.0_drz.fits'' \<in> set (map fst swept_dir)
   \<and> glob1 ''f160w_0.[0-9]*drz.fits'' (map fst swept_dir)
       = [''f160w_0.1_drz.fits'', ''f160w_0.2_drz.fits'', ''f160w_0.3_drz.fits'',
          ''f160w_0.4_drz.fits'', ''f160w_0.5_drz.fits'', ''f160w_0.6_drz.fits'',
          ''f160w_0.7_drz.fits'', ''f160w_0.8_drz.fits'', ''f160w_0.9_drz.fits'']
   \<and> map_sum id fraclist (eval_cell L float_of_str junk1 junk2 swept_dir xlims ylims)
       = Inr (map Fin [1 / 10, 2 / 10, 3 / 10, 4 / 10, 5 / 10, 6 / 10, 7 / 10, 8 / 10, 9 / 10])
   \<and> Fin 1 \<notin> set (map Fin [1 / 10, 2 / 10, 3 / 10, 4 / 10, 5 / 10, 6 / 10, 7 / 10, 8 / 10, 9 / 10])
   \<and> \<not> fnmatch ''f160w_1.0_drz.fits'' ''f160w_0.[0-9]*drz.fits''"
proof -
  have a: "''f160w_1.0_drz.fits'' \<in> set (map product_name (pixfrac_sweep flt_files selected_params))"
  proof -
    have "map product_name (pixfrac_sweep flt_files selected_params)
        = map (\<lambda>s. s @ ''_drz.fits'') (map output_name (pixfrac_sweep flt_files selected_params))"
      by (simp add: product_name_def comp_def)
    then show ?thesis by (simp add: sweep_names format_pixfracs)
  qed
  have b: "''f160w_1.0_drz.fits'' \<in> set (map fst swept_dir)" by code_simp
  have c: "glob1 ''f160w_0.[0-9]*drz.fits'' (map fst swept_dir)
       = [''f160w_0.1_drz.fits'', ''f160w_0.2_drz.fits'', ''f160w_0.3_drz.fits'',
          ''f160w_0.4_drz.fits'', ''f160w_0.5_drz.fits'', ''f160w_0.6_drz.fits'',
          ''f160w_0.7_drz.fits'', ''f160w_0.8_drz.fits'', ''f160w_0.9_drz.fits'']"
    by code_simp
  have d: "map_sum id fraclist (eval_cell L float_of_str junk1 junk2 swept_dir xlims ylims)
       = Inr (map Fin [1 / 10, 2 / 10, 3 / 10, 4 / 10, 5 / 10, 6 / 10, 7 / 10, 8 / 10, 9 / 10])"
    by code_simp
  have e: "Fin 1 \<notin> set (map Fin [1 / 10, 2 / 10, 3 / 10, 4 / 10, 5 / 10, 6 / 10, 7 / 10, 8 / 10, 9 / 10])"
    by simp
  have f: "\<not> fnmatch ''f160w_1.0_drz.fits'' ''f160w_0.[0-9]*drz.fits''" by code_simp
  from a b c d e f show ?thesis by blast
qed

subsection \<open>The move of the downloaded files\<close>

lemma map_of_filter_neq: "map_of (filter (\<lambda>(k, n). k \<noteq> p) t) q = (if q = p then None else map_of t q)"
  by (induction t) auto

lemma map_of_map_at:
  "map_of (map (\<lambda>(k, n). if k = p then (k, g n) else (k, n)) t) q
     = (if q = p then map_option g (map_of t p) else map_of t q)"
  by (induction t) auto

lemma map_of_put_entry: "map_of (put_entry t k n) q = (if q = k then Some n else map_of t q)"
proof (cases "k \<in> set (map fst t)")
  case True
  then obtain v where v: "map_of t k = Some v"
    by (metis map_of_eq_None_iff not_Some_eq set_map)
  have "map_of (map (\<lambda>(k', n'). if k' = k then (k, n) else (k', n')) t) q
      = (if q = k then map_option (\<lambda>_. n) (map_of t k) else map_of t q)"
    by (induction t) auto
  with True v show ?thesis by (simp add: put_entry_def)
next
  case False
  then have "map_of t k = None" by (simp add: map_of_eq_None_iff)
  with False show ?thesis by (auto simp: put_entry_def map_add_def split: option.splits)
qed

lemma remove_at_step:
  "remove_at t (p # q # ps) =
     map (\<lambda>(k, n). if k = p then (k, case n of Dir es \<Rightarrow> Dir (remove_at es (q # ps)) | File c \<Rightarrow> n) else (k, n)) t"
  by (auto split: node.splits)

lemma map_of_remove_at_deep:
  "map_of (remove_at t (p # q # ps)) m
     = (if m = p then map_option (\<lambda>n. case n of Dir es \<Rightarrow> Dir (remove_at es (q # ps)) | File c \<Rightarrow> n) (map_of t p)
        else map_of t m)"
  unfolding remove_at_step by (rule map_of_map_at)

lemma node_at_remove_at:
  "length Q = length P \<Longrightarrow> Q \<noteq> P \<Longrightarrow> node_at (remove_at t P) Q = node_at t Q"
proof (induction P arbitrary: t Q)
  case Nil
  then show ?case by simp
next
  case (Cons p P')
  then obtain q Q' where Q: "Q = q # Q'" by (cases Q) auto
  show ?case
  proof (cases P')
    case Nil
    with Cons.prems Q have "Q' = []" "q \<noteq> p" by auto
    with Nil Q show ?thesis by (simp add: map_of_filter_neq)
  next
    case (Cons p2 P'')
    show ?thesis
    proof (cases "q = p")
      case False
      with Cons Q show ?thesis by (simp only: node_at.simps map_of_remove_at_deep) simp
    next
      case True
      with Cons.prems Q have ne: "Q' \<noteq> P'" and len: "length Q' = length P'" by auto
      from len Cons have Qne: "Q' \<noteq> []" by auto
      show ?thesis
      proof (cases "map_of t p")
        case None
        with True Cons Q show ?thesis by (simp only: node_at.simps map_of_remove_at_deep) simp
      next
        case (Some n)
        show ?thesis
        proof (cases n)
          case (File c)
          with Some True Cons Q Qne show ?thesis
            by (simp only: node_at.simps map_of_remove_at_deep) simp
        next
          case (Dir es)
          from Cons.IH[OF len ne, of es] Some Dir True Cons Q show ?thesis
            by (simp only: node_at.simps map_of_remove_at_deep) simp
        qed
      qed
    qed
  qed
qed

lemma os_rename_Inr:
  assumes "os_rename t src dst = Inr t'"
  shows "\<exists>n. node_at t src = Some n \<and> t' = put_entry (remove_at t src) dst n
     \<and> (case map_of t dst of Some (Dir es) \<Rightarrow> es = [] | _ \<Rightarrow> True)"
  using assms
  by (auto simp: os_rename_def split: option.splits node.splits if_splits)

lemma node_at_put_entry:
  "k \<noteq> p \<Longrightarrow> node_at (put_entry t k n) (p # ps) = node_at t (p # ps)"
  by (simp add: map_of_put_entry)

lemma download_path_inj: "download_path a = download_path b \<longleftrightarrow> a = b"
  by (cases a; cases b) (simp add: download_path_def)

lemma os_rename_download:
  assumes "os_rename t (download_path flt) (snd flt) = Inr t'"
  shows "snd flt \<noteq> ''mastDownload''"
    and "map_of t' (snd flt) = node_at t (download_path flt)"
    and "m \<noteq> snd flt \<Longrightarrow> m \<noteq> ''mastDownload'' \<Longrightarrow> map_of t' m = map_of t m"
    and "flt' \<noteq> flt \<Longrightarrow> node_at t' (download_path flt') = node_at t (download_path flt')"
proof -
  from os_rename_Inr[OF assms] obtain n where
    n: "node_at t (download_path flt) = Some n"
    and t': "t' = put_entry (remove_at t (download_path flt)) (snd flt) n"
    and dst: "case map_of t (snd flt) of Some (Dir es) \<Rightarrow> es = [] | _ \<Rightarrow> True"
    by blast
  show ne: "snd flt \<noteq> ''mastDownload''"
  proof
    assume eq: "snd flt = ''mastDownload''"
    from n obtain es where es: "map_of t ''mastDownload'' = Some (Dir es)" and "map_of es ''HST'' \<noteq> None"
      by (auto simp: download_path_def split: option.splits node.splits if_splits)
    then have "es \<noteq> []" by auto
    with dst eq es show False by simp
  qed
  show "map_of t' (snd flt) = node_at t (download_path flt)"
    by (simp add: t' map_of_put_entry n)
  show "map_of t' m = map_of t m" if "m \<noteq> snd flt" "m \<noteq> ''mastDownload''"
    using that by (simp add: t' map_of_put_entry download_path_def map_of_remove_at_deep del: remove_at.simps)
  show "node_at t' (download_path flt') = node_at t (download_path flt')" if "flt' \<noteq> flt"
  proof -
    have "node_at t' (download_path flt') = node_at (remove_at t (download_path flt)) (download_path flt')"
      unfolding t' download_path_def[of flt'] using ne by (rule node_at_put_entry)
    also have "\<dots> = node_at t (download_path flt')"
      by (rule node_at_remove_at) (simp_all add: download_path_def download_path_inj that, use that in \<open>auto simp: prod_eq_iff\<close>)
    finally show ?thesis .
  qed
qed

lemma rename_loop_Inr:
  assumes "rename_loop t ms = Inr t'"
  shows "(\<forall>m. m \<noteq> ''mastDownload'' \<and> m \<notin> snd ` set ms \<longrightarrow> map_of t' m = map_of t m)
    \<and> (distinct (map snd ms) \<longrightarrow> (\<forall>flt \<in> set ms. map_of t' (snd flt) = node_at t (download_path flt)))
    \<and> (\<forall>flt'. flt' \<notin> set ms \<longrightarrow> node_at t' (download_path flt') = node_at t (download_path flt'))
    \<and> ''mastDownload'' \<notin> snd ` set ms"
  using assms
proof (induction ms arbitrary: t)
  case Nil
  then show ?case by simp
next
  case (Cons flt ms)
  from Cons.prems obtain t1 where r: "os_rename t (download_path flt) (snd flt) = Inr t1"
    and l: "rename_loop t1 ms = Inr t'"
    by (auto simp: Let_def ebind_Inr_iff)
  note o = os_rename_download[OF r]
  note ih = Cons.IH[OF l]
  from ih have ih1: "\<And>m. m \<noteq> ''mastDownload'' \<Longrightarrow> m \<notin> snd ` set ms \<Longrightarrow> map_of t' m = map_of t1 m"
    by blast
  from ih have ih2: "\<And>g. distinct (map snd ms) \<Longrightarrow> g \<in> set ms \<Longrightarrow> map_of t' (snd g) = node_at t1 (download_path g)"
    by blast
  from ih have ih3: "\<And>g. g \<notin> set ms \<Longrightarrow> node_at t' (download_path g) = node_at t1 (download_path g)"
    by blast
  from ih have ih4: "''mastDownload'' \<notin> snd ` set ms" by blast
  have frame: "map_of t' m = map_of t m" if "m \<noteq> ''mastDownload''" "m \<notin> snd ` set (flt # ms)" for m
  proof -
    from that have "m \<noteq> snd flt" "m \<notin> snd ` set ms" by auto
    with ih1 that(1) have "map_of t' m = map_of t1 m" by blast
    with o(3)[of m] that(1) \<open>m \<noteq> snd flt\<close> show ?thesis by simp
  qed
  have moved: "map_of t' (snd g) = node_at t (download_path g)"
    if d: "distinct (map snd (flt # ms))" and g: "g \<in> set (flt # ms)" for g
  proof (cases "g = flt")
    case True
    from d have "snd flt \<notin> snd ` set ms" by auto
    with ih1 o(1) have "map_of t' (snd flt) = map_of t1 (snd flt)" by blast
    with o(2) True show ?thesis by simp
  next
    case False
    with g have gm: "g \<in> set ms" by simp
    from d have "distinct (map snd ms)" by simp
    with ih2 gm have "map_of t' (snd g) = node_at t1 (download_path g)" by blast
    with o(4)[OF False] show ?thesis by simp
  qed
  have rest: "node_at t' (download_path flt') = node_at t (download_path flt')" if "flt' \<notin> set (flt # ms)" for flt'
  proof -
    from that have "flt' \<noteq> flt" "flt' \<notin> set ms" by auto
    with ih3[of flt'] o(4)[of flt'] show ?thesis by simp
  qed
  have "''mastDownload'' \<notin> snd ` set (flt # ms)" using ih4 o(1) by auto
  with frame moved rest show ?case by blast
qed

lemma shutil_rmtree_Inr:
  assumes "shutil_rmtree t name = Inr t'"
  shows "map_of t' name = None" and "m \<noteq> name \<Longrightarrow> map_of t' m = map_of t m"
  using assms
  by (auto simp: shutil_rmtree_def map_of_filter_neq split: option.splits node.splits)

lemma example_move_cell: "move_cell downloaded_tree = Inr moved_tree"
  by code_simp

lemma example_glob_downloads:
  "glob_downloads downloaded_tree
     = [(''ib1f19l6q'', ''ib1f19l6q_flt.fits''), (''ib1f19l7q'', ''ib1f19l7q_flt.fits'')]"
  by code_simp




end
